theory Spec2Isabelle
  imports Complex_Main "HOL-Library.Product_Lexorder" "HOL-Library.Sublist"
begin

section \<open>Smart moulding cropper: server and client, embedded in HOL\<close>

text \<open>
  The server (\<^verbatim>\<open>server/src/index.ts\<close>) has two routes: item-number detection over
  the words a text recogniser returns, and rotation-aware extraction of crop boxes.
  The client (\<^verbatim>\<open>client/src/App.tsx\<close>) edits crop boxes with pointer and keyboard
  events. JavaScript numbers are modelled as reals (no NaN, no infinities, no rounding
  error); \<^verbatim>\<open>Math.round\<close> is \<^term>\<open>round\<close>, which rounds halves upwards as JavaScript
  does. The recogniser, the image library and the file system are external and enter the
  model as parameters; an exception is a value \<open>Inl e\<close> of a sum type.
\<close>

subsection \<open>Errors and HTTP responses\<close>

datatype exn = Exn string

datatype 'a response = Json nat 'a | Send nat string

fun status :: "'a response \<Rightarrow> nat" where
  "status (Json s b) = s"
| "status (Send s m) = s"

subsection \<open>Detection: recogniser words and candidates\<close>

text \<open>
  A recogniser word, after the source has resolved the optional fields
  (\<^verbatim>\<open>w.bbox?.x0 ?? w.x0 ?? 0\<close>, \<^verbatim>\<open>String(w.text || '')\<close>,
  \<^verbatim>\<open>Number(w.confidence ?? w.conf ?? 0)\<close>).
\<close>

record ocr_word =
  w_text :: string
  w_x0 :: real
  w_y0 :: real
  w_x1 :: real
  w_y1 :: real
  w_confidence :: real

text \<open>The object built for every word by the first \<^verbatim>\<open>map\<close> of a strategy.\<close>

record word_box =
  c_raw :: string
  c_x :: real
  c_y :: real
  c_w :: real
  c_h :: real
  c_cx :: real
  c_cy :: real
  c_conf :: real

text \<open>The candidate of the second \<^verbatim>\<open>map\<close>: the word box with \<open>text\<close> and \<open>ar\<close>.\<close>

record cand = word_box +
  c_text :: string
  c_ar :: real

text \<open>An entry of the response's \<^verbatim>\<open>detections\<close> list.\<close>

record detection =
  d_text :: string
  d_x :: real
  d_y :: real
  d_w :: real
  d_h :: real
  d_conf :: real

record detect_out =
  detections :: "detection list"
  itemNumbers :: "string list"

definition isDigit :: "char \<Rightarrow> bool" where
  "isDigit c = (48 \<le> (of_char c :: nat) \<and> (of_char c :: nat) \<le> 57)"

text \<open>\<^verbatim>\<open>o.raw.replace(/\D/g, '')\<close>\<close>

definition stripNonDigits :: "string \<Rightarrow> string" where
  "stripNonDigits s = filter isDigit s"

text \<open>\<^verbatim>\<open>/^\d{3,6}$/.test(t)\<close>\<close>

definition digits3to6 :: "string \<Rightarrow> bool" where
  "digits3to6 t = (3 \<le> length t \<and> length t \<le> 6 \<and> list_all isDigit t)"

text \<open>
  The whole-image word box of \<^verbatim>\<open>detectPresto\<close>. \<open>baseTop\<close> is 0 there; the
  region strategy adds the top of its region to \<open>y\<close> and \<open>cy\<close>.
\<close>

definition wordBox :: "real \<Rightarrow> ocr_word \<Rightarrow> word_box" where
  "wordBox baseTop w =
     (let W = max 0 (w_x1 w - w_x0 w); H = max 0 (w_y1 w - w_y0 w)
      in \<lparr> c_raw = w_text w, c_x = w_x0 w, c_y = baseTop + w_y0 w, c_w = W, c_h = H,
           c_cx = w_x0 w + W / 2, c_cy = baseTop + w_y0 w + H / 2,
           c_conf = w_confidence w \<rparr>)"

text \<open>
  \<^verbatim>\<open>({ text: o.raw.replace(/\D/g, ''), ...o, ar: o.w > 0 ? o.w / o.h : 0 })\<close>.
  For \<open>h = 0\<close> and \<open>w > 0\<close> JavaScript yields \<open>Infinity\<close>, which fails the upper
  bound on the aspect ratio; here the quotient is 0, which fails the lower bound: the
  word is rejected either way, and \<open>ar\<close> is not part of the output.
\<close>

definition toCand :: "word_box \<Rightarrow> cand" where
  "toCand b = word_box.extend b
     \<lparr> c_text = stripNonDigits (c_raw b), c_ar = (if c_w b > 0 then c_w b / c_h b else 0) \<rparr>"

definition toDetection :: "cand \<Rightarrow> detection" where
  "toDetection c = \<lparr> d_text = c_text c, d_x = c_x c, d_y = c_y c, d_w = c_w c, d_h = c_h c,
                      d_conf = c_conf c \<rparr>"

definition mkOut :: "cand list \<Rightarrow> detect_out" where
  "mkOut cs = (let ds = map toDetection cs
               in \<lparr> detections = ds, itemNumbers = map d_text ds \<rparr>)"

subsection \<open>Strategy A: presto\<close>

definition prestoKeep :: "nat \<Rightarrow> nat \<Rightarrow> cand \<Rightarrow> bool" where
  "prestoKeep imgW imgH c =
     (let EDGE_PCT = 12 / 100;
          LEFT_MAX = real imgW * EDGE_PCT;
          RIGHT_MIN = real imgW * (1 - EDGE_PCT);
          MIN_CONF = 60;
          MIN_H = real imgH * (10 / 1000);
          MAX_H = real imgH * (6 / 100);
          MIN_AR = 9 / 10;
          MAX_AR = 6
      in digits3to6 (c_text c) \<and>
         c_conf c \<ge> MIN_CONF \<and>
         (c_cx c \<le> LEFT_MAX \<or> c_cx c \<ge> RIGHT_MIN) \<and>
         c_h c \<ge> MIN_H \<and> c_h c \<le> MAX_H \<and>
         c_ar c \<ge> MIN_AR \<and> c_ar c \<le> MAX_AR)"

text \<open>
  \<^verbatim>\<open>.sort((a, b) => a.y - b.y || a.x - b.x)\<close>: a stable sort on the key \<open>(y, x)\<close>
  in lexicographic order.
\<close>

definition prestoCandidates :: "nat \<Rightarrow> nat \<Rightarrow> ocr_word list \<Rightarrow> cand list" where
  "prestoCandidates imgW imgH ws =
     sort_key (\<lambda>c. (c_y c, c_x c))
       (filter (prestoKeep imgW imgH) (map (toCand \<circ> wordBox 0) ws))"

text \<open>\<^verbatim>\<open>const MERGE_GAP = Math.round((imgH || 1000) * 0.015) || 15\<close>\<close>

definition MERGE_GAP :: "nat \<Rightarrow> int" where
  "MERGE_GAP imgH =
     (let r = round (real (if imgH = 0 then 1000 else imgH) * (15 / 1000))
      in if r = 0 then 15 else r)"

text \<open>One pass of the body of the row-dedup loop, on the array \<open>dedup\<close>.\<close>

definition dedupStep :: "int \<Rightarrow> cand list \<Rightarrow> cand \<Rightarrow> cand list" where
  "dedupStep gap dedup d =
     (if dedup = [] \<or> \<bar>c_cy d - c_cy (last dedup)\<bar> > of_int gap then dedup @ [d]
      else if c_conf d > c_conf (last dedup) then dedup[length dedup - 1 := d]
      else dedup)"

fun dedupLoop :: "int \<Rightarrow> cand list \<Rightarrow> cand list \<Rightarrow> cand list" where
  "dedupLoop gap dedup [] = dedup"
| "dedupLoop gap dedup (d # ds) = dedupLoop gap (dedupStep gap dedup d) ds"

definition dedupRows :: "nat \<Rightarrow> cand list \<Rightarrow> cand list" where
  "dedupRows imgH candidates = dedupLoop (MERGE_GAP imgH) [] candidates"

text \<open>\<^verbatim>\<open>detectPresto\<close> after the recogniser has returned its words.\<close>

definition prestoFromWords :: "nat \<Rightarrow> nat \<Rightarrow> ocr_word list \<Rightarrow> detect_out" where
  "prestoFromWords imgW imgH ws = mkOut (dedupRows imgH (prestoCandidates imgW imgH ws))"

subsection \<open>External collaborators of the detection route\<close>

text \<open>
  The recogniser (\<^verbatim>\<open>ocrRecognize\<close>: a buffer and the page segmentation mode; the
  result is \<^verbatim>\<open>data?.words || []\<close>) and the image pipelines of the route. Each may
  throw.
\<close>

record 'b detect_env =
  ocrRecognize :: "'b \<Rightarrow> string \<Rightarrow> exn + ocr_word list"
  imgMetadata :: "'b \<Rightarrow> exn + (nat \<times> nat)"
  preCommon :: "'b \<Rightarrow> nat \<Rightarrow> exn + 'b"
  preStrong :: "'b \<Rightarrow> exn + 'b"
  roiExtract :: "'b \<Rightarrow> int \<Rightarrow> int \<Rightarrow> int \<Rightarrow> int \<Rightarrow> int \<Rightarrow> exn + 'b"

definition detectPresto :: "'b detect_env \<Rightarrow> 'b \<Rightarrow> nat \<Rightarrow> nat \<Rightarrow> exn + detect_out" where
  "detectPresto env buf imgW imgH =
     (case ocrRecognize env buf ''11'' of
        Inl e \<Rightarrow> Inl e
      | Inr ws \<Rightarrow> Inr (prestoFromWords imgW imgH ws))"

subsection \<open>Strategy B: nurre\<close>

definition ROI_W :: "nat \<Rightarrow> int" where
  "ROI_W fullW = max 1 (round (real fullW * (35 / 100)))"

definition ROI_H :: "nat \<Rightarrow> int" where
  "ROI_H fullH = max 1 (round (real fullH * (30 / 100)))"

definition nurreKeep :: "nat \<Rightarrow> cand \<Rightarrow> bool" where
  "nurreKeep fullH c =
     (let MIN_CONF = 55;
          MIN_H = real_of_int (max 20 (round (real fullH * (18 / 1000))));
          MAX_H = real_of_int (round (real fullH * (12 / 100)));
          MIN_AR = 6 / 10;
          MAX_AR = 10
      in digits3to6 (c_text c) \<and>
         c_conf c \<ge> MIN_CONF \<and>
         c_h c \<ge> MIN_H \<and> c_h c \<le> MAX_H \<and>
         c_ar c \<ge> MIN_AR \<and> c_ar c \<le> MAX_AR)"

text \<open>
  \<^verbatim>\<open>.sort((a, b) => b.cy - a.cy || a.x - b.x || b.h - a.h || b.conf - a.conf).slice(0, 3)\<close>
\<close>

definition nurreFromWords :: "nat \<Rightarrow> ocr_word list \<Rightarrow> detect_out" where
  "nurreFromWords fullH ws =
     (let baseTop = real_of_int (int fullH - ROI_H fullH);
          candidates = filter (nurreKeep fullH) (map (toCand \<circ> wordBox baseTop) ws)
      in mkOut (take 3 (sort_key (\<lambda>c. (- c_cy c, c_x c, - c_h c, - c_conf c)) candidates)))"

definition detectNurreBig :: "'b detect_env \<Rightarrow> 'b \<Rightarrow> nat \<Rightarrow> nat \<Rightarrow> exn + detect_out" where
  "detectNurreBig env buf fullW fullH =
     (case preStrong env buf of
        Inl e \<Rightarrow> Inl e
      | Inr strong \<Rightarrow>
          (case roiExtract env strong 0 (int fullH - ROI_H fullH) (ROI_W fullW) (ROI_H fullH)
                  (min 1600 (ROI_W fullW)) of
             Inl e \<Rightarrow> Inl e
           | Inr roi \<Rightarrow>
               (case ocrRecognize env roi ''6'' of
                  Inl e \<Rightarrow> Inl e
                | Inr ws \<Rightarrow> Inr (nurreFromWords fullH ws))))"

subsection \<open>The route \<^verbatim>\<open>POST /api/detect-item-numbers\<close>\<close>

record 'b detect_req =
  upload :: "'b option"
  queryStrategy :: "string option"
  bodyStrategy :: "string option"
  headerStrategy :: "string option"

record detect_body = detect_out +
  imageWidth :: "nat option"
  imageHeight :: "nat option"
  strategyUsed :: "string option"

text \<open>\<^verbatim>\<open>a || b\<close> on optional strings: an absent or empty \<open>a\<close> gives \<open>b\<close>.\<close>

definition orElse :: "string option \<Rightarrow> string \<Rightarrow> string" where
  "orElse a b = (case a of None \<Rightarrow> b | Some s \<Rightarrow> if s = [] then b else s)"

definition selectStrategy :: "'b detect_req \<Rightarrow> string" where
  "selectStrategy req =
     orElse (queryStrategy req) (orElse (bodyStrategy req) (orElse (headerStrategy req) ''presto''))"

text \<open>A strategy selector that is given and not the empty string.\<close>

definition present :: "string option \<Rightarrow> bool" where
  "present a = (a \<noteq> None \<and> a \<noteq> Some [])"

text \<open>The body \<^verbatim>\<open>{ detections: [], itemNumbers: [] }\<close>, which has no other field.\<close>

definition emptyBody :: detect_body where
  "emptyBody = \<lparr> detections = [], itemNumbers = [], imageWidth = None, imageHeight = None,
                  strategyUsed = None \<rparr>"

text \<open>The strategy dispatch with the fallback of the \<open>nurre\<close> branch.\<close>

definition runStrategy :: "'b detect_env \<Rightarrow> string \<Rightarrow> 'b \<Rightarrow> nat \<Rightarrow> nat \<Rightarrow> exn + detect_out" where
  "runStrategy env strategy pre imgW imgH =
     (if strategy = ''nurre'' then
        (case detectNurreBig env pre imgW imgH of
           Inl e \<Rightarrow> Inl e
         | Inr out \<Rightarrow>
             if itemNumbers out = [] then
               (case detectPresto env pre imgW imgH of
                  Inl e \<Rightarrow> Inl e
                | Inr prestoOut \<Rightarrow> Inr (if itemNumbers prestoOut \<noteq> [] then prestoOut else out))
             else Inr out)
      else detectPresto env pre imgW imgH)"

text \<open>The \<^verbatim>\<open>try\<close> block of the handler once the upload is known to be present.\<close>

definition detectCore :: "'b detect_env \<Rightarrow> 'b detect_req \<Rightarrow> 'b \<Rightarrow> exn + detect_body" where
  "detectCore env req f =
     (let strategy = selectStrategy req
      in case imgMetadata env f of
           Inl e \<Rightarrow> Inl e
         | Inr (imgW, imgH) \<Rightarrow>
             (case preCommon env f (min 2200 (if imgW = 0 then 2200 else imgW)) of
                Inl e \<Rightarrow> Inl e
              | Inr pre \<Rightarrow>
                  (case runStrategy env strategy pre imgW imgH of
                     Inl e \<Rightarrow> Inl e
                   | Inr out \<Rightarrow>
                       Inr \<lparr> detections = detections out, itemNumbers = itemNumbers out,
                             imageWidth = Some imgW, imageHeight = Some imgH,
                             strategyUsed = Some strategy \<rparr>)))"

definition detectRoute :: "'b detect_env \<Rightarrow> 'b detect_req \<Rightarrow> detect_body response" where
  "detectRoute env req =
     (case upload req of
        None \<Rightarrow> Json 200 emptyBody
      | Some f \<Rightarrow>
          (case detectCore env req f of
             Inl e \<Rightarrow> Json 200 emptyBody
           | Inr b \<Rightarrow> Json 200 b))"

subsection \<open>Extraction: boxes, geometry and names\<close>

text \<open>
  A box of the \<^verbatim>\<open>multipleCrops\<close> payload as the client builds it
  (\<^verbatim>\<open>buildCropPayloadForIndex\<close>). The server's type \<^verbatim>\<open>CropReq\<close> declares
  \<^verbatim>\<open>x, y, width, height, rotation?, itemNumber, detectColor?\<close>; \<open>flipVertical\<close> is a
  field of the parsed object all the same.
\<close>

record CropReq =
  q_x :: real
  q_y :: real
  q_width :: real
  q_height :: real
  q_rotation :: "real option"
  q_itemNumber :: string
  q_flipVertical :: bool

text \<open>A decoded bitmap: its rows of pixels, top row first.\<close>

type_synonym image = "nat list list"

definition imgHeight :: "image \<Rightarrow> nat" where
  "imgHeight img = length img"

definition imgWidth :: "image \<Rightarrow> nat" where
  "imgWidth img = (case img of [] \<Rightarrow> 0 | r # rs \<Rightarrow> length r)"

text \<open>The vertical mirror of a bitmap: the rows in reverse order.\<close>

definition flipVertically :: "image \<Rightarrow> image" where
  "flipVertically img = rev img"

record rect =
  r_left :: int
  r_top :: int
  r_width :: int
  r_height :: int

definition rotPt :: "real \<Rightarrow> real \<Rightarrow> real \<Rightarrow> real \<Rightarrow> real \<Rightarrow> real \<times> real" where
  "rotPt x y cx cy thetaRad =
     (let dx = x - cx; dy = y - cy
      in (cos thetaRad * dx - sin thetaRad * dy + cx,
          sin thetaRad * dx + cos thetaRad * dy + cy))"

text \<open>\<^verbatim>\<open>Math.min(...vs)\<close> and \<^verbatim>\<open>Math.max(...vs)\<close>; the source applies them to four corners.\<close>

fun minOf :: "real list \<Rightarrow> real" where
  "minOf [] = 0"
| "minOf (v # vs) = fold min vs v"

fun maxOf :: "real list \<Rightarrow> real" where
  "maxOf [] = 0"
| "maxOf (v # vs) = fold max vs v"

text \<open>
  The angle and the clamped rectangle that the loop body computes for a box on a
  \<open>W \<times> H\<close> bitmap, up to the call of the image library.
\<close>

definition cropGeometry :: "nat \<Rightarrow> nat \<Rightarrow> CropReq \<Rightarrow> real \<times> rect" where
  "cropGeometry W H c =
     (let angle = (case q_rotation c of None \<Rightarrow> 0 | Some r \<Rightarrow> r);
          theta = - angle * pi / 180;
          bw0 = max 1 \<lfloor>q_width c\<rfloor>;
          bh0 = max 1 \<lfloor>q_height c\<rfloor>;
          bx0 = max 0 \<lfloor>q_x c\<rfloor>;
          by0 = max 0 \<lfloor>q_y c\<rfloor>;
          cx = real W / 2; cy = real H / 2;
          corners = [rotPt 0 0 cx cy theta, rotPt (real W) 0 cx cy theta,
                     rotPt (real W) (real H) cx cy theta, rotPt 0 (real H) cx cy theta];
          minX = minOf (map fst corners);
          minY = minOf (map snd corners);
          maxX = maxOf (map fst corners);
          maxY = maxOf (map snd corners);
          RW = round (maxX - minX);
          RH = round (maxY - minY);
          ctr = rotPt (real_of_int bx0 + real_of_int bw0 / 2)
                      (real_of_int by0 + real_of_int bh0 / 2) cx cy theta;
          rx0 = round (fst ctr - minX - real_of_int bw0 / 2);
          ry0 = round (snd ctr - minY - real_of_int bh0 / 2);
          bw = min bw0 RW;
          bh = min bh0 RH;
          rx = max 0 (min (RW - bw) rx0);
          ry = max 0 (min (RH - bh) ry0)
      in (angle, \<lparr> r_left = rx, r_top = ry, r_width = bw, r_height = bh \<rparr>))"

text \<open>Characters of a label: \<^verbatim>\<open>replace(/[^A-Za-z0-9]/g, '').toUpperCase()\<close>.\<close>

definition isAlnum :: "char \<Rightarrow> bool" where
  "isAlnum c = (let n = (of_char c :: nat)
                in (48 \<le> n \<and> n \<le> 57) \<or> (65 \<le> n \<and> n \<le> 90) \<or> (97 \<le> n \<and> n \<le> 122))"

definition toUpperChar :: "char \<Rightarrow> char" where
  "toUpperChar c = (let n = (of_char c :: nat)
                    in if 97 \<le> n \<and> n \<le> 122 then char_of (n - 32) else c)"

definition cleanLabel :: "string \<Rightarrow> string" where
  "cleanLabel s = map toUpperChar (filter isAlnum s)"

text \<open>The decimal numeral of a number, as a template literal prints it.\<close>

definition digitChar :: "nat \<Rightarrow> char" where
  "digitChar d = char_of (48 + d)"

fun showNat :: "nat \<Rightarrow> string" where
  "showNat n = (if n < 10 then [digitChar n] else showNat (n div 10) @ [digitChar (n mod 10)])"

declare showNat.simps [simp del]

definition suffixed :: "string \<Rightarrow> nat \<Rightarrow> string" where
  "suffixed clean k = clean @ ''_'' @ showNat k @ ''.png''"

text \<open>Reading a decimal numeral back; used to show that \<^const>\<open>showNat\<close> is injective.\<close>

definition digitVal :: "char \<Rightarrow> nat" where
  "digitVal c = of_char c - 48"

definition readNat :: "string \<Rightarrow> nat" where
  "readNat s = foldl (\<lambda>a c. 10 * a + digitVal c) 0 s"

text \<open>
  The loop \<^verbatim>\<open>while (fs.existsSync(filePath)) { fileBase = `${clean}_${k++}.png`; ... }\<close>
  over the names present in the output directory.
\<close>

function nameLoop :: "string list \<Rightarrow> string \<Rightarrow> string \<Rightarrow> nat \<Rightarrow> string" where
  "nameLoop existing clean fileBase k =
     (if fileBase \<in> set existing then nameLoop existing clean (suffixed clean k) (Suc k)
      else fileBase)"
  by pat_completeness auto

subsection \<open>External collaborators of the extraction route\<close>

text \<open>
  The image library (\<^verbatim>\<open>sharp(...).rotate(a, ...)\<close>, \<^verbatim>\<open>.extract(r)\<close>,
  \<^verbatim>\<open>.metadata()\<close>), \<^verbatim>\<open>fs.mkdirSync\<close>, \<^verbatim>\<open>fs.writeFileSync\<close> and the clock.
  The output directory is the list of its files, name and content; creating it either
  succeeds or throws; \<^verbatim>\<open>Date.now()\<close> returns the reading \<open>dateNow env n\<close> at its
  \<open>n\<close>-th call.
\<close>

type_synonym directory = "(string \<times> image) list"

record crop_env =
  cropMetadata :: "image \<Rightarrow> exn + (nat \<times> nat)"
  rotateImg :: "real \<Rightarrow> image \<Rightarrow> exn + image"
  extractImg :: "rect \<Rightarrow> image \<Rightarrow> exn + image"
  mkdirSync :: "exn option"
  writeFileSync :: "directory \<Rightarrow> string \<Rightarrow> image \<Rightarrow> exn + directory"
  dateNow :: "nat \<Rightarrow> nat"

record world =
  files :: directory
  clockReads :: nat

definition existsSync :: "world \<Rightarrow> string \<Rightarrow> bool" where
  "existsSync w name = (name \<in> set (map fst (files w)))"

text \<open>An entry of the response's \<^verbatim>\<open>croppedMouldings\<close> list.\<close>

record cropped =
  e_id :: string
  imageUrl :: string
  detectedNumber :: string

text \<open>
  \<^verbatim>\<open>String(c.itemNumber || '').replace(...).toUpperCase() || `CROP${Date.now()}`\<close>:
  the clock is read only when the cleaned label is empty.
\<close>

definition cleanName :: "crop_env \<Rightarrow> world \<Rightarrow> string \<Rightarrow> world \<times> string" where
  "cleanName env w itemNumber =
     (let clean = cleanLabel itemNumber
      in if clean = []
         then (w\<lparr>clockReads := Suc (clockReads w)\<rparr>, ''CROP'' @ showNat (dateNow env (clockReads w)))
         else (w, clean))"

text \<open>The free file name chosen for a cleaned label in a directory.\<close>

definition freeName :: "world \<Rightarrow> string \<Rightarrow> string" where
  "freeName w clean = nameLoop (map fst (files w)) clean (clean @ ''.png'') 1"

text \<open>
  The body of the \<^verbatim>\<open>for (const c of crops)\<close> loop inside its \<^verbatim>\<open>try\<close>: the new
  world and either the caught error or the entry pushed to \<open>results\<close>.
\<close>

definition cropOne :: "crop_env \<Rightarrow> image \<Rightarrow> nat \<Rightarrow> nat \<Rightarrow> world \<Rightarrow> CropReq
    \<Rightarrow> world \<times> (exn + cropped)" where
  "cropOne env input W H w c =
     (let (angle, r) = cropGeometry W H c
      in case rotateImg env (- angle) input of
           Inl e \<Rightarrow> (w, Inl e)
         | Inr rotated \<Rightarrow>
             (case extractImg env r rotated of
                Inl e \<Rightarrow> (w, Inl e)
              | Inr buf \<Rightarrow>
                  (let (w1, clean) = cleanName env w (q_itemNumber c);
                       fileBase = freeName w1 clean
                   in case writeFileSync env (files w1) fileBase buf of
                        Inl e \<Rightarrow> (w1, Inl e)
                      | Inr fs \<Rightarrow>
                          (w1\<lparr>files := fs\<rparr>,
                           Inr \<lparr> e_id = fileBase, imageUrl = ''/crops/'' @ fileBase,
                                 detectedNumber = q_itemNumber c \<rparr>))))"

text \<open>
  The loop over the parsed array. An element is a box object or \<^verbatim>\<open>null\<close>. For a
  box the \<^verbatim>\<open>catch\<close> block logs the error and the loop goes on. For \<^verbatim>\<open>null\<close> the
  first statement of the \<^verbatim>\<open>try\<close> block throws on \<^verbatim>\<open>c.rotation\<close>, and the
  \<^verbatim>\<open>catch\<close> block throws in turn on \<^verbatim>\<open>c.itemNumber\<close>: the loop is left with that
  error, the later elements unprocessed. The message of the error is the engine's; its
  first words stand for it here.
\<close>

definition nullDeref :: exn where
  "nullDeref = Exn ''Cannot read properties of null''"

fun cropLoop :: "crop_env \<Rightarrow> image \<Rightarrow> nat \<Rightarrow> nat \<Rightarrow> world \<Rightarrow> cropped list
    \<Rightarrow> CropReq option list \<Rightarrow> world \<times> (exn + cropped list)" where
  "cropLoop env input W H w results [] = (w, Inr results)"
| "cropLoop env input W H w results (None # cs) = (w, Inl nullDeref)"
| "cropLoop env input W H w results (Some c # cs) =
     (case cropOne env input W H w c of
        (w', Inl e) \<Rightarrow> cropLoop env input W H w' results cs
      | (w', Inr entry) \<Rightarrow> cropLoop env input W H w' (results @ [entry]) cs)"

subsection \<open>The route \<^verbatim>\<open>POST /api/multiple-crop-mouldings\<close>\<close>

text \<open>
  The request after the upload middleware: the bitmap, if one was sent, and the result
  of \<^verbatim>\<open>JSON.parse(req.body.multipleCrops || '[]')\<close>, which throws on a malformed
  payload. Parsing comes before the check for the bitmap. The parsed value is an array
  of box objects and \<^verbatim>\<open>null\<close>s, or a value that \<^verbatim>\<open>for ... of\<close> cannot iterate (a
  number, a boolean, \<^verbatim>\<open>null\<close>, an object), on which the loop statement throws.
\<close>

datatype payload = NotIterable | Elements "CropReq option list"

record crop_request =
  catalogImage :: "image option"
  multipleCrops :: "exn + payload"

text \<open>The outer \<^verbatim>\<open>catch\<close>: \<^verbatim>\<open>res.status(500).send(e?.message || 'Crop failed')\<close>\<close>

definition sendError :: "exn \<Rightarrow> 'a response" where
  "sendError e = (case e of Exn m \<Rightarrow> Send 500 (if m = [] then ''Crop failed'' else m))"

definition notIterable :: exn where
  "notIterable = Exn ''crops is not iterable''"

definition cropRoute :: "crop_env \<Rightarrow> world \<Rightarrow> crop_request \<Rightarrow> world \<times> cropped list response" where
  "cropRoute env w req =
     (case multipleCrops req of
        Inl e \<Rightarrow> (w, sendError e)
      | Inr parsed \<Rightarrow>
          (case catalogImage req of
             None \<Rightarrow> (w, Send 400 ''No catalogImage'')
           | Some input \<Rightarrow>
               (case cropMetadata env input of
                  Inl e \<Rightarrow> (w, sendError e)
                | Inr (W, H) \<Rightarrow>
                    (case mkdirSync env of
                       Some e \<Rightarrow> (w, sendError e)
                     | None \<Rightarrow>
                         (case parsed of
                            NotIterable \<Rightarrow> (w, sendError notIterable)
                          | Elements crops \<Rightarrow>
                              (case cropLoop env input W H w [] crops of
                                 (w', Inl e) \<Rightarrow> (w', sendError e)
                               | (w', Inr results) \<Rightarrow> (w', Json 200 results)))))))"

subsection \<open>Notions used to state the claims about extraction\<close>

text \<open>
  The \<open>k\<close>-th name tried for a cleaned label: the plain name, then the suffixes
  \<open>_1\<close>, \<open>_2\<close>, ...
\<close>

definition candidateName :: "string \<Rightarrow> nat \<Rightarrow> string" where
  "candidateName clean k = (if k = 0 then clean @ ''.png'' else suffixed clean k)"

text \<open>
  What the \<^verbatim>\<open>try\<close> block of each box of a batch ends with, in input order: the
  caught error or the entry; the boxes of a batch that ended with an entry.
\<close>

fun outcomes :: "crop_env \<Rightarrow> image \<Rightarrow> nat \<Rightarrow> nat \<Rightarrow> world \<Rightarrow> CropReq list \<Rightarrow> (exn + cropped) list" where
  "outcomes env input W H w [] = []"
| "outcomes env input W H w (c # cs) =
     (case cropOne env input W H w c of (w', r) \<Rightarrow> r # outcomes env input W H w' cs)"

fun successes :: "(exn + cropped) list \<Rightarrow> cropped list" where
  "successes [] = []"
| "successes (Inl e # rs) = successes rs"
| "successes (Inr entry # rs) = entry # successes rs"

fun extracted :: "CropReq list \<Rightarrow> (exn + cropped) list \<Rightarrow> CropReq list" where
  "extracted (c # cs) (Inr entry # rs) = c # extracted cs rs"
| "extracted (c # cs) (Inl e # rs) = extracted cs rs"
| "extracted cs rs = []"

text \<open>
  A reference environment for evaluating examples: turning by 0 degrees returns the
  bitmap unchanged (other angles, which resample, are outside it), \<open>extract\<close> copies
  the rectangle and rejects one that leaves the bitmap, the directory can be created,
  writing adds or replaces the file.
\<close>

definition extractRows :: "rect \<Rightarrow> image \<Rightarrow> exn + image" where
  "extractRows r img =
     (if r_left r < 0 \<or> r_top r < 0 \<or> r_width r \<le> 0 \<or> r_height r \<le> 0
         \<or> r_left r + r_width r > int (imgWidth img) \<or> r_top r + r_height r > int (imgHeight img)
      then Inl (Exn ''extract_area: bad extract area'')
      else Inr (map (\<lambda>row. take (nat (r_width r)) (drop (nat (r_left r)) row))
                  (take (nat (r_height r)) (drop (nat (r_top r)) img))))"

definition refEnv :: crop_env where
  "refEnv = \<lparr> cropMetadata = (\<lambda>img. Inr (imgWidth img, imgHeight img)),
             rotateImg = (\<lambda>a img. if a = 0 then Inr img else Inl (Exn ''resampling'')),
             extractImg = extractRows,
             mkdirSync = None,
             writeFileSync = (\<lambda>dir name buf. Inr ((name, buf) # filter (\<lambda>f. fst f \<noteq> name) dir)),
             dateNow = (\<lambda>n. 1700000000000 + n) \<rparr>"

section \<open>The client: crop boxes under pointer and keyboard events\<close>

text \<open>
  The state of the component \<^verbatim>\<open>App\<close> that the handlers read and write, and the
  handlers as functions on it. State updates take effect at once. The canvas of an image
  supplies its bounding rectangle and the data that \<^verbatim>\<open>drawCanvas\<close> stored on it: the
  scale, which is positive for a loaded image, and the bitmap's width and height.
\<close>

record CropBox =
  b_id :: nat
  b_x :: real
  b_y :: real
  b_width :: real
  b_height :: real
  b_itemNumber :: string
  b_color :: string
  b_rotation :: real
  b_flipVertical :: bool

datatype handle = Hse | Hne | Hsw | Hnw | He | Hw | Hs | Hn

datatype app_mode = Catalog | Screenshot

record app_state =
  appMode :: app_mode
  selectedVendorId :: string
  activeIdx :: nat
  boxesMap :: "nat \<Rightarrow> CropBox list option"
  zoom :: real
  panOffset :: "real \<times> real"
  isPanning :: bool
  panStart :: "real \<times> real"
  isDragging :: bool
  isResizing :: bool
  dragStart :: "real \<times> real"
  resizeHandle :: "handle option"
  activeCropId :: "nat option"
  resizeStartBoxRef :: "CropBox option"

record canvas =
  cv_left :: real
  cv_top :: real
  cv_scale :: real
  cv_originalWidth :: real
  cv_originalHeight :: real

record pointer =
  clientX :: real
  clientY :: real
  shiftKey :: bool

text \<open>\<^verbatim>\<open>boxesMap[index] || []\<close>\<close>

definition boxesAt :: "(nat \<Rightarrow> CropBox list option) \<Rightarrow> nat \<Rightarrow> CropBox list" where
  "boxesAt m i = (case m i of None \<Rightarrow> [] | Some bs \<Rightarrow> bs)"

text \<open>The selected box id where the source tests \<^verbatim>\<open>activeCropId\<close> for truth.\<close>

definition activeId :: "app_state \<Rightarrow> nat option" where
  "activeId st = (case activeCropId st of
                    None \<Rightarrow> None
                  | Some n \<Rightarrow> if n = 0 then None else Some n)"

text \<open>
  \<^verbatim>\<open>getVendorPrefix\<close>: the vendor with that id in \<^verbatim>\<open>VENDORS\<close> and the prefix of its
  name, composed into one table.
\<close>

definition getVendorPrefix :: "string \<Rightarrow> string" where
  "getVendorPrefix vendorId =
     (case map_of [(''1'', ''PR''), (''2'', ''ST''), (''3'', ''DM''), (''4'', ''BM''),
                   (''5'', ''MM''), (''6'', ''NC'')] vendorId of
        None \<Rightarrow> []
      | Some p \<Rightarrow> p)"

definition getResizeHandle :: "real \<Rightarrow> real \<Rightarrow> CropBox \<Rightarrow> handle option" where
  "getResizeHandle x y box =
     (let s = 15; r = b_x box + b_width box; b = b_y box + b_height box
      in if x \<ge> r - s \<and> y \<ge> b - s then Some Hse
         else if x \<ge> r - s \<and> y \<le> b_y box + s then Some Hne
         else if x \<le> b_x box + s \<and> y \<ge> b - s then Some Hsw
         else if x \<le> b_x box + s \<and> y \<le> b_y box + s then Some Hnw
         else if x \<ge> r - 8 \<and> x \<le> r + 8 then Some He
         else if x \<ge> b_x box - 8 \<and> x \<le> b_x box + 8 then Some Hw
         else if y \<ge> b - 8 \<and> y \<le> b + 8 then Some Hs
         else if y \<ge> b_y box - 8 \<and> y \<le> b_y box + 8 then Some Hn
         else None)"

text \<open>\<^verbatim>\<open>const snap = (v, g = 1) => Math.round(v / g) * g\<close> at \<open>g = 1\<close>\<close>

definition snap :: "real \<Rightarrow> real" where
  "snap v = real_of_int (round (v / 1)) * 1"

subsection \<open>Box mutations\<close>

definition updateBoxesForIndex :: "nat \<Rightarrow> (CropBox list \<Rightarrow> CropBox list) \<Rightarrow> app_state \<Rightarrow> app_state" where
  "updateBoxesForIndex index updater st =
     st\<lparr>boxesMap := (boxesMap st)(index \<mapsto> updater (boxesAt (boxesMap st) index))\<rparr>"

definition updateBoxes :: "(CropBox list \<Rightarrow> CropBox list) \<Rightarrow> app_state \<Rightarrow> app_state" where
  "updateBoxes updater st = updateBoxesForIndex (activeIdx st) updater st"

definition colors :: "string list" where
  "colors = [''#00ff00'', ''#ff0000'', ''#0000ff'', ''#ffff00'', ''#ff00ff'', ''#00ffff'',
             ''#ffa500'', ''#800080'']"

definition addCropBox :: "nat option \<Rightarrow> app_state \<Rightarrow> app_state" where
  "addCropBox index st =
     (let i = (case index of None \<Rightarrow> activeIdx st | Some j \<Rightarrow> j);
          prefix = getVendorPrefix (selectedVendorId st)
      in updateBoxesForIndex i (\<lambda>prev.
           let nid = fold (\<lambda>b m. max m (b_id b)) prev 0 + 1
           in prev @ [\<lparr> b_id = nid, b_x = 60 + real nid * 10, b_y = 60 + real nid * 10,
                         b_width = 400, b_height = 120, b_itemNumber = prefix,
                         b_color = colors ! (nid mod length colors), b_rotation = 0,
                         b_flipVertical = (appMode st = Screenshot) \<rparr>]) st)"

definition removeCropBox :: "nat \<Rightarrow> app_state \<Rightarrow> app_state" where
  "removeCropBox i st =
     updateBoxes (\<lambda>prev. if length prev > 1 then filter (\<lambda>b. b_id b \<noteq> i) prev else prev) st"

text \<open>
  \<^verbatim>\<open>updateCropBox(id, updates)\<close> for updates of geometry, rotation and flip, given as
  the function that merges them into a box. (An update of the label is also passed
  through \<^verbatim>\<open>formatItemNumber\<close>; labels are not edited here.)
\<close>

definition updateCropBox :: "nat \<Rightarrow> (CropBox \<Rightarrow> CropBox) \<Rightarrow> app_state \<Rightarrow> app_state" where
  "updateCropBox i updates st =
     updateBoxes (map (\<lambda>b. if b_id b \<noteq> i then b else updates b)) st"

subsection \<open>View controls and focus\<close>

text \<open>\<^verbatim>\<open>+(z + 0.25).toFixed(2)\<close>: the sum rounded to two decimals.\<close>

definition toFixed2 :: "real \<Rightarrow> real" where
  "toFixed2 v = real_of_int (round (v * 100)) / 100"

definition handleZoomIn :: "app_state \<Rightarrow> app_state" where
  "handleZoomIn st = st\<lparr>zoom := min 3 (toFixed2 (zoom st + 25 / 100))\<rparr>"

definition handleZoomOut :: "app_state \<Rightarrow> app_state" where
  "handleZoomOut st = st\<lparr>zoom := max (5 / 10) (toFixed2 (zoom st - 25 / 100))\<rparr>"

definition handleResetView :: "app_state \<Rightarrow> app_state" where
  "handleResetView st = st\<lparr>zoom := 1, panOffset := (0, 0)\<rparr>"

definition setActiveByThumb :: "nat \<Rightarrow> app_state \<Rightarrow> app_state" where
  "setActiveByThumb i st = st\<lparr>activeIdx := i, zoom := 1, panOffset := (0, 0), activeCropId := None\<rparr>"

text \<open>The Focus button of the view of all images: \<^verbatim>\<open>onClick={() => setActiveIdx(i)}\<close>\<close>

definition focusButton :: "nat \<Rightarrow> app_state \<Rightarrow> app_state" where
  "focusButton i st = st\<lparr>activeIdx := i\<rparr>"

subsection \<open>Pointer handlers\<close>

text \<open>The first loop of \<^verbatim>\<open>handleMouseDown\<close>: the first box with a handle under the pointer.\<close>

fun firstHandleHit :: "real \<Rightarrow> real \<Rightarrow> CropBox list \<Rightarrow> (CropBox \<times> handle) option" where
  "firstHandleHit ox oy [] = None"
| "firstHandleHit ox oy (box # boxes) =
     (if ox \<ge> b_x box - 15 \<and> ox \<le> b_x box + b_width box + 15
         \<and> oy \<ge> b_y box - 15 \<and> oy \<le> b_y box + b_height box + 15
      then (case getResizeHandle ox oy box of
              Some h \<Rightarrow> Some (box, h)
            | None \<Rightarrow> firstHandleHit ox oy boxes)
      else firstHandleHit ox oy boxes)"

definition insideBox :: "real \<Rightarrow> real \<Rightarrow> CropBox \<Rightarrow> bool" where
  "insideBox ox oy box =
     (ox \<ge> b_x box \<and> ox \<le> b_x box + b_width box \<and> oy \<ge> b_y box \<and> oy \<le> b_y box + b_height box)"

text \<open>
  In the handlers \<open>activeIdx st\<close> is the focus before the event: \<^verbatim>\<open>setActiveIdx(index)\<close>
  changes the state, and the rest of the handler still compares with the old value.
\<close>

definition handleMouseDown :: "canvas option \<Rightarrow> pointer \<Rightarrow> nat \<Rightarrow> app_state \<Rightarrow> app_state" where
  "handleMouseDown cv e index st =
     (let st1 = (if activeIdx st \<noteq> index then st\<lparr>activeIdx := index\<rparr> else st)
      in case cv of
           None \<Rightarrow> st1
         | Some canvas \<Rightarrow>
             (let x = clientX e - cv_left canvas; y = clientY e - cv_top canvas;
                  scale = cv_scale canvas;
                  pan = (if index = activeIdx st then panOffset st else (0, 0));
                  ox = (x - fst pan) / scale; oy = (y - snd pan) / scale;
                  boxes = boxesAt (boxesMap st) index
              in case firstHandleHit ox oy boxes of
                   Some (box, h) \<Rightarrow>
                     st1\<lparr>isResizing := True, resizeHandle := Some h,
                         activeCropId := Some (b_id box), dragStart := (ox, oy),
                         resizeStartBoxRef := Some box\<rparr>
                 | None \<Rightarrow>
                     (case find (insideBox ox oy) boxes of
                        Some box \<Rightarrow>
                          st1\<lparr>isDragging := True, activeCropId := Some (b_id box),
                              dragStart := (ox - b_x box, oy - b_y box)\<rparr>
                      | None \<Rightarrow>
                          if shiftKey e \<or> (index = activeIdx st \<and> zoom st > 1)
                          then st1\<lparr>isPanning := True,
                                   panStart := (clientX e - fst (panOffset st),
                                                clientY e - snd (panOffset st))\<rparr>
                          else st1)))"

text \<open>
  The \<^verbatim>\<open>switch (resizeHandle)\<close> of \<^verbatim>\<open>handleMouseMove\<close> with the two clamps after
  it: the new box for the box being resized.
\<close>

definition resizeBox :: "handle \<Rightarrow> CropBox \<Rightarrow> real \<Rightarrow> real \<Rightarrow> real \<Rightarrow> real \<Rightarrow> CropBox \<Rightarrow> CropBox" where
  "resizeBox h originalBox dx dy W H box =
     (let (nx, ny, nw, nh) =
        (case h of
           Hse \<Rightarrow> (b_x box, b_y box,
                   max 50 (b_width originalBox + dx), max 20 (b_height originalBox + dy))
         | Hne \<Rightarrow> (b_x box, b_y originalBox + dy,
                   max 50 (b_width originalBox + dx), max 20 (b_height originalBox - dy))
         | Hsw \<Rightarrow> (b_x originalBox + dx, b_y box,
                   max 50 (b_width originalBox - dx), max 20 (b_height originalBox + dy))
         | Hnw \<Rightarrow> (b_x originalBox + dx, b_y originalBox + dy,
                   max 50 (b_width originalBox - dx), max 20 (b_height originalBox - dy))
         | He \<Rightarrow> (b_x box, b_y box, max 50 (b_width originalBox + dx), b_height box)
         | Hw \<Rightarrow> (b_x originalBox + dx, b_y box,
                  max 50 (b_width originalBox - dx), b_height box)
         | Hs \<Rightarrow> (b_x box, b_y box, b_width box, max 20 (b_height originalBox + dy))
         | Hn \<Rightarrow> (b_x box, b_y originalBox + dy,
                  b_width box, max 20 (b_height originalBox - dy)))
      in box\<lparr>b_x := max 0 (min (W - nw) nx), b_y := max 0 (min (H - nh) ny),
             b_width := nw, b_height := nh\<rparr>)"

definition dragBox :: "real \<times> real \<Rightarrow> real \<Rightarrow> real \<Rightarrow> real \<Rightarrow> real \<Rightarrow> CropBox \<Rightarrow> CropBox" where
  "dragBox start ox oy W H b =
     b\<lparr>b_x := max 0 (min (W - b_width b) (snap (ox - fst start))),
       b_y := max 0 (min (H - b_height b) (snap (oy - snd start)))\<rparr>"

definition handleMouseMove :: "canvas option \<Rightarrow> pointer \<Rightarrow> nat \<Rightarrow> app_state \<Rightarrow> app_state" where
  "handleMouseMove cv e index st =
     (case cv of
        None \<Rightarrow> st
      | Some canvas \<Rightarrow>
          if isPanning st \<and> index = activeIdx st
          then st\<lparr>panOffset := (clientX e - fst (panStart st), clientY e - snd (panStart st))\<rparr>
          else
            (let x = clientX e - cv_left canvas; y = clientY e - cv_top canvas;
                 scale = cv_scale canvas;
                 W = cv_originalWidth canvas; H = cv_originalHeight canvas;
                 pan = (if index = activeIdx st then panOffset st else (0, 0));
                 ox = (x - fst pan) / scale; oy = (y - snd pan) / scale
             in case (isResizing st, activeId st, resizeHandle st) of
                  (True, Some aid, Some h) \<Rightarrow>
                    (case resizeStartBoxRef st of
                       None \<Rightarrow> st
                     | Some originalBox \<Rightarrow>
                         updateBoxesForIndex index
                           (map (\<lambda>box. if b_id box \<noteq> aid then box
                                       else resizeBox h originalBox (ox - fst (dragStart st))
                                              (oy - snd (dragStart st)) W H box)) st)
                | _ \<Rightarrow>
                    (case (isDragging st, activeId st) of
                       (True, Some aid) \<Rightarrow>
                         updateBoxesForIndex index
                           (map (\<lambda>b. if b_id b \<noteq> aid then b
                                     else dragBox (dragStart st) ox oy W H b)) st
                     | _ \<Rightarrow> st)))"

definition handleMouseUp :: "app_state \<Rightarrow> app_state" where
  "handleMouseUp st =
     st\<lparr>isDragging := False, isResizing := False, isPanning := False, resizeHandle := None,
        dragStart := (0, 0), panStart := (0, 0), resizeStartBoxRef := None\<rparr>"

subsection \<open>Keyboard handler\<close>

datatype key = ArrowLeft | ArrowRight | ArrowUp | ArrowDown | BracketLeft | BracketRight
  | Backspace | Delete | OtherKey

definition onKey :: "key \<Rightarrow> bool \<Rightarrow> app_state \<Rightarrow> app_state" where
  "onKey k shift st =
     (case activeId st of
        None \<Rightarrow> st
      | Some aid \<Rightarrow>
          (let step = (if shift then 10 else 1);
               boxes = boxesAt (boxesMap st) (activeIdx st)
           in case find (\<lambda>b. b_id b = aid) boxes of
                None \<Rightarrow> st
              | Some cur \<Rightarrow>
                  (case k of
                     ArrowLeft \<Rightarrow> updateCropBox aid (\<lambda>b. b\<lparr>b_x := max 0 (b_x cur - step)\<rparr>) st
                   | ArrowRight \<Rightarrow> updateCropBox aid (\<lambda>b. b\<lparr>b_x := b_x cur + step\<rparr>) st
                   | ArrowUp \<Rightarrow> updateCropBox aid (\<lambda>b. b\<lparr>b_y := max 0 (b_y cur - step)\<rparr>) st
                   | ArrowDown \<Rightarrow> updateCropBox aid (\<lambda>b. b\<lparr>b_y := b_y cur + step\<rparr>) st
                   | BracketLeft \<Rightarrow>
                       updateCropBox aid (\<lambda>b. b\<lparr>b_rotation := b_rotation cur - 15 / 100\<rparr>) st
                   | BracketRight \<Rightarrow>
                       updateCropBox aid (\<lambda>b. b\<lparr>b_rotation := b_rotation cur + 15 / 100\<rparr>) st
                   | Backspace \<Rightarrow> if length boxes > 1 then removeCropBox aid st else st
                   | Delete \<Rightarrow> if length boxes > 1 then removeCropBox aid st else st
                   | OtherKey \<Rightarrow> st)))"

subsection \<open>Sequences of events\<close>

datatype event =
    MouseDown "canvas option" pointer nat
  | MouseMove "canvas option" pointer nat
  | MouseUp
  | KeyDown key bool
  | AddBox "nat option"
  | RemoveBox nat
  | ThumbClick nat
  | FocusClick nat
  | ZoomIn
  | ZoomOut
  | ResetView

fun step :: "event \<Rightarrow> app_state \<Rightarrow> app_state" where
  "step (MouseDown cv e index) st = handleMouseDown cv e index st"
| "step (MouseMove cv e index) st = handleMouseMove cv e index st"
| "step MouseUp st = handleMouseUp st"
| "step (KeyDown k shift) st = onKey k shift st"
| "step (AddBox index) st = addCropBox index st"
| "step (RemoveBox i) st = removeCropBox i st"
| "step (ThumbClick i) st = setActiveByThumb i st"
| "step (FocusClick i) st = focusButton i st"
| "step ZoomIn st = handleZoomIn st"
| "step ZoomOut st = handleZoomOut st"
| "step ResetView st = handleResetView st"

definition run :: "event list \<Rightarrow> app_state \<Rightarrow> app_state" where
  "run evs st = fold step evs st"

subsection \<open>Invariants of a box\<close>

text \<open>The invariant of the data model on a \<open>W \<times> H\<close> bitmap.\<close>

definition boxOk :: "real \<Rightarrow> real \<Rightarrow> CropBox \<Rightarrow> bool" where
  "boxOk W H b = (b_width b \<ge> 50 \<and> b_height b \<ge> 20 \<and> 0 \<le> b_x b \<and> b_x b + b_width b \<le> W
                  \<and> 0 \<le> b_y b \<and> b_y b + b_height b \<le> H)"

text \<open>Its part that does not mention the bitmap.\<close>

definition sizeOk :: "CropBox \<Rightarrow> bool" where
  "sizeOk b = (b_width b \<ge> 50 \<and> b_height b \<ge> 20 \<and> 0 \<le> b_x b \<and> 0 \<le> b_y b)"

text \<open>The upper bounds, for a box that is not wider or not taller than the bitmap.\<close>

definition fitsIn :: "real \<times> real \<Rightarrow> CropBox \<Rightarrow> bool" where
  "fitsIn wh b = ((b_width b \<le> fst wh \<longrightarrow> b_x b + b_width b \<le> fst wh)
                  \<and> (b_height b \<le> snd wh \<longrightarrow> b_y b + b_height b \<le> snd wh))"

text \<open>
  Events under which the upper bounds are kept, for bitmaps of the sizes \<open>dims\<close>: the
  canvas of a pointer move reports the size of its bitmap, a key is not ArrowRight or
  ArrowDown, and no box is added.
\<close>

fun bounded :: "(nat \<Rightarrow> real \<times> real) \<Rightarrow> event \<Rightarrow> bool" where
  "bounded dims (MouseMove (Some canvas) e index) =
     (cv_originalWidth canvas = fst (dims index) \<and> cv_originalHeight canvas = snd (dims index))"
| "bounded dims (KeyDown k shift) = (k \<noteq> ArrowRight \<and> k \<noteq> ArrowDown)"
| "bounded dims (AddBox index) = False"
| "bounded dims ev = True"

text \<open>
  The boxes of a session for the bounds to be kept: distinct ids, and every box with the
  sizes, the lower bounds and the upper bounds.
\<close>

definition fitted :: "real \<times> real \<Rightarrow> CropBox list \<Rightarrow> bool" where
  "fitted wh bs = (distinct (map b_id bs) \<and> list_all (\<lambda>b. sizeOk b \<and> fitsIn wh b) bs)"

section \<open>Example inputs\<close>

text \<open>
  Concrete inputs at which the theorems below are evaluated. The recogniser stub finds
  nothing in block mode (the region strategy) and one valid word in sparse mode (the
  whole image).
\<close>

definition stubWord :: ocr_word where
  "stubWord = \<lparr> w_text = ''1234'', w_x0 = 10, w_y0 = 100, w_x1 = 130, w_y1 = 140,
                 w_confidence = 90 \<rparr>"

definition stubEnv :: "nat detect_env" where
  "stubEnv = \<lparr> ocrRecognize = (\<lambda>buf psm. if psm = ''6'' then Inr [] else Inr [stubWord]),
               imgMetadata = (\<lambda>f. Inr (1500, 2000)),
               preCommon = (\<lambda>f w. Inr f),
               preStrong = (\<lambda>b. Inr b),
               roiExtract = (\<lambda>b l t w h rw. Inr b) \<rparr>"

definition stubReq :: "nat option \<Rightarrow> string option \<Rightarrow> nat detect_req" where
  "stubReq f q = \<lparr> upload = f, queryStrategy = q, bodyStrategy = Some ''presto'',
                   headerStrategy = None \<rparr>"

text \<open>The stub with a recogniser that throws, and with one that finds no word.\<close>

definition failEnv :: "nat detect_env" where
  "failEnv = stubEnv \<lparr> ocrRecognize := (\<lambda>buf psm. Inl (Exn ''recognizer'')) \<rparr>"
definition blankEnv :: "nat detect_env" where
  "blankEnv = stubEnv \<lparr> ocrRecognize := (\<lambda>buf psm. Inr []) \<rparr>"

text \<open>A candidate with vertical centre \<open>yc\<close> and confidence \<open>cf\<close>.\<close>

definition exCand :: "real \<Rightarrow> real \<Rightarrow> cand" where
  "exCand yc cf = \<lparr> c_raw = ''1234'', c_x = 10, c_y = yc - 10, c_w = 60, c_h = 20,
                    c_cx = 40, c_cy = yc, c_conf = cf, c_text = ''1234'', c_ar = 3 \<rparr>"

definition exImage :: image where
  "exImage = [[1, 2], [3, 4]]"

definition exBox :: "string \<Rightarrow> bool \<Rightarrow> CropReq" where
  "exBox label flip = \<lparr> q_x = 0, q_y = 0, q_width = 2, q_height = 2, q_rotation = Some 0,
                        q_itemNumber = label, q_flipVertical = flip \<rparr>"

definition emptyWorld :: world where
  "emptyWorld = \<lparr> files = [], clockReads = 0 \<rparr>"

text \<open>The reference environment with a directory that refuses the file \<open>B2.png\<close>.\<close>

definition ioEnv :: crop_env where
  "ioEnv = refEnv \<lparr> writeFileSync := (\<lambda>dir name buf.
       if name = ''B2.png'' then Inl (Exn ''EACCES'')
       else Inr ((name, buf) # filter (\<lambda>f. fst f \<noteq> name) dir)) \<rparr>"

definition exBatch :: "CropReq list" where
  "exBatch = [exBox ''a1'' False, exBox ''b2'' False, exBox ''c3'' False]"

definition exRequest :: "CropReq list \<Rightarrow> crop_request" where
  "exRequest cs = \<lparr> catalogImage = Some exImage, multipleCrops = Inr (Elements (map Some cs)) \<rparr>"

definition entryFor :: "string \<Rightarrow> string \<Rightarrow> cropped" where
  "entryFor name label = \<lparr> e_id = name, imageUrl = ''/crops/'' @ name, detectedNumber = label \<rparr>"

text \<open>A parsed payload with a \<^verbatim>\<open>null\<close> between two boxes.\<close>

definition nullRequest :: crop_request where
  "nullRequest = \<lparr> catalogImage = Some exImage,
                   multipleCrops = Inr (Elements [Some (exBox ''a1'' False), None,
                                                   Some (exBox ''c3'' False)]) \<rparr>"

text \<open>
  A box with id 1, a state focused on image 0 that holds the given boxes with box 1
  selected, a canvas at the origin with scale 1, and a pointer without modifier keys.
\<close>

definition exCropBox :: "real \<Rightarrow> real \<Rightarrow> real \<Rightarrow> real \<Rightarrow> CropBox" where
  "exCropBox x y w h = \<lparr> b_id = 1, b_x = x, b_y = y, b_width = w, b_height = h,
       b_itemNumber = ''PR1'', b_color = ''#00ff00'', b_rotation = 0, b_flipVertical = False \<rparr>"

definition exState :: "CropBox list \<Rightarrow> app_state" where
  "exState bs = \<lparr> appMode = Catalog, selectedVendorId = ''1'', activeIdx = 0,
       boxesMap = [0 \<mapsto> bs], zoom = 1, panOffset = (0, 0), isPanning = False,
       panStart = (0, 0), isDragging = False, isResizing = False, dragStart = (0, 0),
       resizeHandle = None, activeCropId = Some 1, resizeStartBoxRef = None \<rparr>"

definition exCanvas :: "real \<Rightarrow> real \<Rightarrow> canvas" where
  "exCanvas W H = \<lparr> cv_left = 0, cv_top = 0, cv_scale = 1, cv_originalWidth = W,
                    cv_originalHeight = H \<rparr>"

definition exPointer :: "real \<Rightarrow> real \<Rightarrow> pointer" where
  "exPointer x y = \<lparr> clientX = x, clientY = y, shiftKey = False \<rparr>"

text \<open>The example state zoomed to 2 and panned by (30, 40).\<close>

definition zoomedState :: app_state where
  "zoomedState = (exState [exCropBox 100 100 100 100])\<lparr>zoom := 2, panOffset := (30, 40)\<rparr>"

text \<open>
  Grabbing the body of the box at (740, 10) of size 60 by 30 on an 800 by 600 bitmap,
  dragging it to the right edge of the canvas, releasing it and pressing ArrowLeft.
\<close>

definition dragEvents :: "event list" where
  "dragEvents = [MouseDown (Some (exCanvas 800 600)) (exPointer 770 25) 0,
                 MouseMove (Some (exCanvas 800 600)) (exPointer 799 25) 0,
                 MouseUp,
                 KeyDown ArrowLeft False]"

text \<open>The example state on a 300 by 300 bitmap, panned 150 pixels to the left.\<close>

definition pannedState :: app_state where
  "pannedState = (exState [exCropBox 100 100 100 100])\<lparr>panOffset := (- 150, 0)\<rparr>"

section \<open>Auxiliary facts\<close>

subsection \<open>Decimal numerals and the naming loop\<close>

lemma digitVal_digitChar: "d < 10 \<Longrightarrow> digitVal (digitChar d) = d"
  by (simp add: digitVal_def digitChar_def)

lemma readNat_snoc: "readNat (s @ [c]) = 10 * readNat s + digitVal c"
  by (simp add: readNat_def)

lemma readNat_showNat: "readNat (showNat n) = n"
proof (induction n rule: showNat.induct)
  case (1 n)
  show ?case
  proof (cases "n < 10")
    case True
    then show ?thesis
      by (simp add: showNat.simps [of n] readNat_def digitVal_digitChar)
  next
    case False
    then have "readNat (showNat n) = 10 * (n div 10) + n mod 10"
      using 1 by (simp add: showNat.simps [of n] readNat_snoc digitVal_digitChar)
    then show ?thesis by simp
  qed
qed

lemma showNat_inj: "showNat a = showNat b \<Longrightarrow> a = b"
  by (metis readNat_showNat)

lemma suffixed_inj: "inj (suffixed clean)"
  by (rule injI) (simp add: suffixed_def showNat_inj)

lemma finite_suffixed: "finite {j. suffixed clean j \<in> set existing}"
proof -
  have "finite (suffixed clean -` set existing)"
    by (rule finite_vimageI [OF _ suffixed_inj]) simp
  then show ?thesis by (simp add: vimage_def)
qed

termination nameLoop
proof (relation "measure (\<lambda>(existing, clean, fileBase, k).
         card {j. k \<le> j \<and> suffixed clean j \<in> set existing}
         + (if fileBase \<in> set existing then 1 else 0))")
  show "wf (measure (\<lambda>(existing, clean, fileBase, k).
         card {j. k \<le> j \<and> suffixed clean j \<in> set existing}
         + (if fileBase \<in> set existing then 1 else 0)))"
    by simp
next
  fix existing :: "string list" and clean fileBase :: string and k :: nat
  assume "fileBase \<in> set existing"
  let ?A = "{j. Suc k \<le> j \<and> suffixed clean j \<in> set existing}"
  let ?B = "{j. k \<le> j \<and> suffixed clean j \<in> set existing}"
  have fin: "finite ?A"
    by (rule finite_subset [OF _ finite_suffixed [of clean existing]]) auto
  have "card ?A + (if suffixed clean k \<in> set existing then 1 else 0) = card ?B"
  proof (cases "suffixed clean k \<in> set existing")
    case True
    then have "?B = insert k ?A" by (auto simp: Suc_le_eq le_less)
    moreover have "k \<notin> ?A" by simp
    ultimately show ?thesis using fin True by simp
  next
    case False
    then have "?B = ?A" by (auto simp: Suc_le_eq le_less)
    then show ?thesis using False by simp
  qed
  then show "((existing, clean, suffixed clean k, Suc k), (existing, clean, fileBase, k))
      \<in> measure (\<lambda>(existing, clean, fileBase, k).
         card {j. k \<le> j \<and> suffixed clean j \<in> set existing}
         + (if fileBase \<in> set existing then 1 else 0))"
    using \<open>fileBase \<in> set existing\<close> by simp
qed

declare nameLoop.simps [simp del]

subsection \<open>Evaluating characters\<close>

lemmas char_eval = char_of_def bit_Suc_0_iff digitChar_def

subsection \<open>Shape of the strategies' outputs\<close>

lemma mkOut_shape: "itemNumbers (mkOut cs) = map d_text (detections (mkOut cs))"
  by (simp add: mkOut_def Let_def)

lemma mkOut_empty: "itemNumbers (mkOut cs) = [] \<Longrightarrow> detections (mkOut cs) = []"
  by (simp add: mkOut_def Let_def)

lemma detectPresto_shape: "detectPresto env b w h = Inr out \<Longrightarrow> itemNumbers out = [] \<Longrightarrow> detections out = []"
  by (auto simp: detectPresto_def prestoFromWords_def mkOut_empty split: sum.splits)

lemma detectNurreBig_shape: "detectNurreBig env b w h = Inr out \<Longrightarrow> itemNumbers out = [] \<Longrightarrow> detections out = []"
  by (auto simp: detectNurreBig_def nurreFromWords_def Let_def mkOut_empty split: sum.splits)

subsection \<open>The recogniser stub\<close>

lemma stub_presto: "prestoFromWords 1500 2000 [stubWord] =
   \<lparr> detections = [\<lparr> d_text = ''1234'', d_x = 10, d_y = 100, d_w = 120, d_h = 40, d_conf = 90 \<rparr>], itemNumbers = [''1234''] \<rparr>"
  by (simp add: prestoFromWords_def prestoCandidates_def prestoKeep_def toCand_def wordBox_def word_box.extend_def
     digits3to6_def stripNonDigits_def isDigit_def Let_def mkOut_def toDetection_def dedupRows_def dedupStep_def stubWord_def word_box.defs cand.defs)

lemma stub_select: "selectStrategy (stubReq f (Some ''nurre'')) = ''nurre''"
  by (simp add: selectStrategy_def orElse_def stubReq_def)

lemma stub_nurre: "detectNurreBig stubEnv 7 1500 2000 = Inr \<lparr> detections = [], itemNumbers = [] \<rparr>"
  by (simp add: detectNurreBig_def stubEnv_def nurreFromWords_def mkOut_def Let_def)

lemma stub_prestoRun: "detectPresto stubEnv 7 1500 2000 = Inr (prestoFromWords 1500 2000 [stubWord])"
  by (simp add: detectPresto_def stubEnv_def)

lemma stub_meta: "imgMetadata stubEnv f = Inr (1500, 2000)" "preCommon stubEnv f n = Inr f"
  by (simp_all add: stubEnv_def)

lemma stub_run: "runStrategy stubEnv ''nurre'' 7 1500 2000 = Inr (prestoFromWords 1500 2000 [stubWord])"
  by (simp add: runStrategy_def stub_nurre stub_prestoRun stub_presto)

lemma stub_core: "detectCore stubEnv (stubReq (Some 7) (Some ''nurre'')) 7 =
   Inr \<lparr> detections = detections (prestoFromWords 1500 2000 [stubWord]),
         itemNumbers = itemNumbers (prestoFromWords 1500 2000 [stubWord]),
         imageWidth = Some 1500, imageHeight = Some 2000, strategyUsed = Some ''nurre'' \<rparr>"
  by (simp add: detectCore_def stub_select stub_meta stub_run)

lemma fail_core: "detectCore failEnv (stubReq (Some 7) None) 7 = Inl (Exn ''recognizer'')"
  by (simp add: detectCore_def failEnv_def stubEnv_def runStrategy_def detectPresto_def
        selectStrategy_def orElse_def stubReq_def)

subsection \<open>The row-dedup loop\<close>

lemma dedupLoop_snoc: "dedupLoop g acc (cs @ [d]) = dedupStep g (dedupLoop g acc cs) d"
  by (induction cs arbitrary: acc) simp_all

lemma update_last: "xs \<noteq> [] \<Longrightarrow> xs[length xs - Suc 0 := v] = butlast xs @ [v]"
  by (induction xs rule: rev_induct) simp_all

lemma MERGE_GAP_values: "MERGE_GAP 2000 = 30" "MERGE_GAP 400 = 6"
  by (simp_all add: MERGE_GAP_def Let_def round_def)

subsection \<open>The extraction loop\<close>

lemma cropLoop_outcomes:
  "cropLoop env input W H w rs (map Some cs) =
     (fst (cropLoop env input W H w rs (map Some cs)),
      Inr (rs @ successes (outcomes env input W H w cs)))"
proof (induction cs arbitrary: w rs)
  case Nil
  then show ?case by simp
next
  case (Cons c cs)
  obtain w' r where o: "cropOne env input W H w c = (w', r)" by (cases "cropOne env input W H w c")
  show ?case
  proof (cases r)
    case (Inl e)
    then show ?thesis using o Cons [of w' rs] by simp
  next
    case (Inr entry)
    then show ?thesis using o Cons [of w' "rs @ [entry]"] by simp
  qed
qed

lemma cropOne_detectedNumber:
  "cropOne env input W H w c = (w', Inr entry) \<Longrightarrow> detectedNumber entry = q_itemNumber c"
  by (auto simp: cropOne_def Let_def split: prod.splits sum.splits)

lemma length_outcomes: "length (outcomes env input W H w cs) = length cs"
  by (induction cs arbitrary: w) (auto split: prod.splits)

lemma successes_labels:
  "map detectedNumber (successes (outcomes env input W H w cs))
     = map q_itemNumber (extracted cs (outcomes env input W H w cs))"
proof (induction cs arbitrary: w)
  case Nil
  then show ?case by simp
next
  case (Cons c cs)
  obtain w' r where o: "cropOne env input W H w c = (w', r)" by (cases "cropOne env input W H w c")
  show ?case
  proof (cases r)
    case (Inl e)
    then show ?thesis using o Cons [of w'] by simp
  next
    case (Inr entry)
    then show ?thesis using o Cons [of w'] cropOne_detectedNumber [of env input W H w c w' entry] by simp
  qed
qed

subsection \<open>The naming loop finds the first free name\<close>

lemma nameLoop_free: "nameLoop ex clean fb k \<notin> set ex"
proof (induction ex clean fb k rule: nameLoop.induct)
  case (1 existing clean fileBase k)
  then show ?case by (subst nameLoop.simps) auto
qed

lemma nameLoop_least:
  "(fb \<notin> set ex \<and> nameLoop ex clean fb k = fb)
   \<or> (fb \<in> set ex \<and> (\<exists>j\<ge>k. nameLoop ex clean fb k = suffixed clean j
          \<and> (\<forall>i. k \<le> i \<and> i < j \<longrightarrow> suffixed clean i \<in> set ex)))"
proof (induction ex clean fb k rule: nameLoop.induct)
  case (1 existing clean fileBase k)
  show ?case
  proof (cases "fileBase \<in> set existing")
    case False
    then show ?thesis by (subst nameLoop.simps) simp
  next
    case True
    note ih = 1 [OF True]
    have eq: "nameLoop existing clean fileBase k = nameLoop existing clean (suffixed clean k) (Suc k)"
      using True by (subst nameLoop.simps) simp
    from ih show ?thesis
    proof
      assume "suffixed clean k \<notin> set existing
                \<and> nameLoop existing clean (suffixed clean k) (Suc k) = suffixed clean k"
      then have "nameLoop existing clean fileBase k = suffixed clean k
          \<and> (\<forall>i. k \<le> i \<and> i < k \<longrightarrow> suffixed clean i \<in> set existing)"
        using eq by auto
      then show ?thesis using True by blast
    next
      assume "suffixed clean k \<in> set existing \<and>
        (\<exists>j\<ge>Suc k. nameLoop existing clean (suffixed clean k) (Suc k) = suffixed clean j
           \<and> (\<forall>i. Suc k \<le> i \<and> i < j \<longrightarrow> suffixed clean i \<in> set existing))"
      then obtain j where k: "suffixed clean k \<in> set existing" and j: "Suc k \<le> j"
        "nameLoop existing clean (suffixed clean k) (Suc k) = suffixed clean j"
        "\<forall>i. Suc k \<le> i \<and> i < j \<longrightarrow> suffixed clean i \<in> set existing" by blast
      have "\<forall>i. k \<le> i \<and> i < j \<longrightarrow> suffixed clean i \<in> set existing"
      proof (intro allI impI)
        fix i assume "k \<le> i \<and> i < j"
        then show "suffixed clean i \<in> set existing"
          using k j(3) by (cases "i = k") auto
      qed
      moreover have "k \<le> j" using j(1) by simp
      ultimately show ?thesis using True eq j(2) by auto
    qed
  qed
qed

lemma freeName_spec:
  "\<not> existsSync w (freeName w clean)
   \<and> (\<exists>k. freeName w clean = candidateName clean k
          \<and> (\<forall>j<k. existsSync w (candidateName clean j)))"
proof -
  let ?ex = "map fst (files w)"
  have free: "\<not> existsSync w (freeName w clean)"
    using nameLoop_free [of ?ex clean "clean @ ''.png''" 1] by (simp add: existsSync_def freeName_def)
  from nameLoop_least [of "clean @ ''.png''" ?ex clean 1]
  have "\<exists>k. freeName w clean = candidateName clean k
          \<and> (\<forall>j<k. existsSync w (candidateName clean j))"
  proof
    assume "clean @ ''.png'' \<notin> set ?ex \<and> nameLoop ?ex clean (clean @ ''.png'') 1 = clean @ ''.png''"
    then have "freeName w clean = candidateName clean 0
          \<and> (\<forall>j<0. existsSync w (candidateName clean j))"
      by (simp add: freeName_def candidateName_def)
    then show ?thesis by blast
  next
    assume "clean @ ''.png'' \<in> set ?ex \<and> (\<exists>j\<ge>1. nameLoop ?ex clean (clean @ ''.png'') 1 = suffixed clean j
          \<and> (\<forall>i. 1 \<le> i \<and> i < j \<longrightarrow> suffixed clean i \<in> set ?ex))"
    then obtain j where a: "clean @ ''.png'' \<in> set ?ex" "1 \<le> j"
       "nameLoop ?ex clean (clean @ ''.png'') 1 = suffixed clean j"
       "\<forall>i. 1 \<le> i \<and> i < j \<longrightarrow> suffixed clean i \<in> set ?ex" by blast
    have "\<forall>i<j. existsSync w (candidateName clean i)"
    proof (intro allI impI)
      fix i assume "i < j"
      then show "existsSync w (candidateName clean i)"
        using a(1) a(4) by (cases "i = 0") (auto simp: existsSync_def candidateName_def)
    qed
    moreover have "freeName w clean = candidateName clean j"
      using a(2,3) by (simp add: freeName_def candidateName_def)
    ultimately show ?thesis by blast
  qed
  with free show ?thesis by simp
qed

lemma cleanName_spec:
  "cleanName env w l = (w1, clean) \<Longrightarrow>
     files w1 = files w
     \<and> clean = (if cleanLabel l = [] then ''CROP'' @ showNat (dateNow env (clockReads w)) else cleanLabel l)"
  by (auto simp: cleanName_def Let_def split: if_splits)

lemma existsSync_files: "files w1 = files w \<Longrightarrow> existsSync w1 = existsSync w"
  by (auto simp: existsSync_def fun_eq_iff)

lemma freeName_files: "files w1 = files w \<Longrightarrow> freeName w1 = freeName w"
  by (auto simp: freeName_def fun_eq_iff)

lemma cropOne_name:
  assumes "cropOne env input W H w c = (w', Inr entry)"
  shows "e_id entry = freeName w (if cleanLabel (q_itemNumber c) = []
                 then ''CROP'' @ showNat (dateNow env (clockReads w))
                 else cleanLabel (q_itemNumber c))"
proof -
  obtain w1 clean where cn: "cleanName env w (q_itemNumber c) = (w1, clean)"
    by (cases "cleanName env w (q_itemNumber c)")
  from cleanName_spec [OF cn] have f: "files w1 = files w"
    and c: "clean = (if cleanLabel (q_itemNumber c) = []
                 then ''CROP'' @ showNat (dateNow env (clockReads w))
                 else cleanLabel (q_itemNumber c))" by simp_all
  have "e_id entry = freeName w1 clean"
    using assms cn by (auto simp: cropOne_def Let_def split: prod.splits sum.splits)
  then show ?thesis using freeName_files [OF f] c by simp
qed

subsection \<open>Evaluating the extraction of the example boxes\<close>

lemma cropGeometry_exBox:
  "cropGeometry 2 2 (exBox l f) = (0, \<lparr> r_left = 0, r_top = 0, r_width = 2, r_height = 2 \<rparr>)"
  apply (simp only: cropGeometry_def exBox_def CropReq.simps option.case)
  apply (simp only: Let_def rotPt_def)
  apply (simp del: minOf.simps maxOf.simps)
  apply (simp only: minOf.simps maxOf.simps fold_simps id_apply comp_apply)
  apply simp
  done

lemma extractRows_exImage:
  "extractRows \<lparr> r_left = 0, r_top = 0, r_width = 2, r_height = 2 \<rparr> exImage = Inr exImage"
  by (simp add: extractRows_def exImage_def imgWidth_def imgHeight_def)

lemma cleanLabel_examples: "cleanLabel ''ab-12!'' = ''AB12''" "cleanLabel ''a1'' = ''A1''"
  "cleanLabel ''b2'' = ''B2''" "cleanLabel ''c3'' = ''C3''"
  by (simp_all add: cleanLabel_def isAlnum_def toUpperChar_def Let_def char_eval)

lemma ioEnv_simps:
  "rotateImg ioEnv 0 img = Inr img" "extractImg ioEnv = extractRows"
  "cropMetadata ioEnv img = Inr (imgWidth img, imgHeight img)" "mkdirSync ioEnv = None"
  "writeFileSync ioEnv dir name buf = (if name = ''B2.png'' then Inl (Exn ''EACCES'')
       else Inr ((name, buf) # filter (\<lambda>f. fst f \<noteq> name) dir))"
  by (simp_all add: ioEnv_def refEnv_def)

lemma refEnv_simps:
  "rotateImg refEnv 0 img = Inr img" "extractImg refEnv = extractRows"
  "cropMetadata refEnv img = Inr (imgWidth img, imgHeight img)" "mkdirSync refEnv = None"
  "writeFileSync refEnv dir name buf = Inr ((name, buf) # filter (\<lambda>f. fst f \<noteq> name) dir)"
  by (simp_all add: refEnv_def)

lemma exImage_size: "imgWidth exImage = 2" "imgHeight exImage = 2"
  by (simp_all add: exImage_def imgWidth_def imgHeight_def)

lemma cropOne_exBox:
  assumes "rotateImg env 0 exImage = Inr exImage" "extractImg env = extractRows"
    and "cleanLabel l \<noteq> []"
  shows "cropOne env exImage 2 2 w (exBox l f) =
     (case writeFileSync env (files w) (freeName w (cleanLabel l)) exImage of
        Inl e \<Rightarrow> (w, Inl e)
      | Inr fs \<Rightarrow> (w\<lparr>files := fs\<rparr>, Inr (entryFor (freeName w (cleanLabel l)) l)))"
proof -
  have n: "q_itemNumber (exBox l f) = l" by (simp add: exBox_def)
  have c: "cleanName env w l = (w, cleanLabel l)" using assms(3) by (simp add: cleanName_def)
  show ?thesis
    unfolding cropOne_def cropGeometry_exBox n
    by (simp add: assms(1,2) extractRows_exImage c entryFor_def Let_def split: sum.splits)
qed

lemma freeName_fresh: "clean @ ''.png'' \<notin> set (map fst (files w)) \<Longrightarrow> freeName w clean = clean @ ''.png''"
  unfolding freeName_def by (subst nameLoop.simps) simp

lemma freeName_AB12: "freeName \<lparr>files = [(''AB12.png'', img)], clockReads = n\<rparr> ''AB12'' = ''AB12_1.png''"
proof -
  have s: "suffixed ''AB12'' (Suc 0) = ''AB12_1.png''"
    by (simp add: suffixed_def showNat.simps [of "Suc 0"] char_eval)
  have "nameLoop [''AB12.png''] ''AB12'' ''AB12.png'' (Suc 0)
          = nameLoop [''AB12.png''] ''AB12'' ''AB12_1.png'' (Suc (Suc 0))"
    by (subst nameLoop.simps) (simp add: s)
  also have "\<dots> = ''AB12_1.png''"
    by (subst nameLoop.simps) simp
  finally show ?thesis by (simp add: freeName_def)
qed

lemma cropOne_first:
  "cropOne refEnv exImage 2 2 emptyWorld (exBox ''ab-12!'' f)
   = (\<lparr>files = [(''AB12.png'', exImage)], clockReads = 0\<rparr>, Inr (entryFor ''AB12.png'' ''ab-12!''))"
  by (simp add: cropOne_exBox refEnv_simps cleanLabel_examples freeName_fresh emptyWorld_def)

lemma cropOne_second:
  "cropOne refEnv exImage 2 2 \<lparr>files = [(''AB12.png'', exImage)], clockReads = 0\<rparr> (exBox ''ab-12!'' f)
   = (\<lparr>files = [(''AB12_1.png'', exImage), (''AB12.png'', exImage)], clockReads = 0\<rparr>,
      Inr (entryFor ''AB12_1.png'' ''ab-12!''))"
  by (simp add: cropOne_exBox refEnv_simps cleanLabel_examples freeName_AB12)

lemma io_outcomes:
  "outcomes ioEnv exImage 2 2 emptyWorld exBatch =
     [Inr (entryFor ''A1.png'' ''a1''), Inl (Exn ''EACCES''), Inr (entryFor ''C3.png'' ''c3'')]"
  by (simp add: exBatch_def cropOne_exBox ioEnv_simps cleanLabel_examples freeName_fresh emptyWorld_def)

lemma flip_untouched:
  "q_x (c\<lparr>q_flipVertical := b\<rparr>) = q_x c" "q_y (c\<lparr>q_flipVertical := b\<rparr>) = q_y c"
  "q_width (c\<lparr>q_flipVertical := b\<rparr>) = q_width c"
  "q_height (c\<lparr>q_flipVertical := b\<rparr>) = q_height c"
  "q_rotation (c\<lparr>q_flipVertical := b\<rparr>) = q_rotation c"
  "q_itemNumber (c\<lparr>q_flipVertical := b\<rparr>) = q_itemNumber c"
  by simp_all

subsection \<open>Box mutations keep the invariants\<close>

lemma boxesAt_upd: "boxesAt (m(i \<mapsto> bs)) j = (if j = i then bs else boxesAt m j)"
  by (simp add: boxesAt_def)

lemma boxes_updateBoxesForIndex:
  "boxesAt (boxesMap (updateBoxesForIndex i u st)) j
     = (if j = i then u (boxesAt (boxesMap st) i) else boxesAt (boxesMap st) j)"
  by (simp add: updateBoxesForIndex_def boxesAt_upd)

lemma clamp_nonneg: "0 \<le> max 0 (min a (v::real))"
  by simp

lemma clamp_upper: "0 \<le> a \<Longrightarrow> max 0 (min a (v::real)) \<le> a"
  by simp

lemma clamp_fit: "nw \<le> W \<Longrightarrow> max 0 (min (W - nw) nx) + nw \<le> (W::real)"
  by (simp add: max_def min_def)

lemma resizeBox_shape:
  "\<exists>nx ny nw nh.
     resizeBox h ob dx dy W H b
       = b\<lparr>b_x := max 0 (min (W - nw) nx), b_y := max 0 (min (H - nh) ny),
           b_width := nw, b_height := nh\<rparr>
     \<and> (nw = b_width b \<or> nw \<ge> 50) \<and> (nh = b_height b \<or> nh \<ge> 20)"
proof (cases h)
  case Hse
  show ?thesis unfolding Hse resizeBox_def
    by (simp only: handle.case prod.case Let_def) (intro exI conjI, rule refl, simp_all)
next
  case Hne
  show ?thesis unfolding Hne resizeBox_def
    by (simp only: handle.case prod.case Let_def) (intro exI conjI, rule refl, simp_all)
next
  case Hsw
  show ?thesis unfolding Hsw resizeBox_def
    by (simp only: handle.case prod.case Let_def) (intro exI conjI, rule refl, simp_all)
next
  case Hnw
  show ?thesis unfolding Hnw resizeBox_def
    by (simp only: handle.case prod.case Let_def) (intro exI conjI, rule refl, simp_all)
next
  case He
  show ?thesis unfolding He resizeBox_def
    by (simp only: handle.case prod.case Let_def) (intro exI conjI, rule refl, simp_all)
next
  case Hw
  show ?thesis unfolding Hw resizeBox_def
    by (simp only: handle.case prod.case Let_def) (intro exI conjI, rule refl, simp_all)
next
  case Hs
  show ?thesis unfolding Hs resizeBox_def
    by (simp only: handle.case prod.case Let_def) (intro exI conjI, rule refl, simp_all)
next
  case Hn
  show ?thesis unfolding Hn resizeBox_def
    by (simp only: handle.case prod.case Let_def) (intro exI conjI, rule refl, simp_all)
qed

lemma resizeBox_id: "b_id (resizeBox h ob dx dy W H b) = b_id b"
  using resizeBox_shape [of h ob dx dy W H b] by auto

lemma resizeBox_sizeOk: "sizeOk b \<Longrightarrow> sizeOk (resizeBox h ob dx dy W H b)"
  using resizeBox_shape [of h ob dx dy W H b] by (auto simp: sizeOk_def)

lemma resizeBox_fitsIn: "fitsIn (W, H) (resizeBox h ob dx dy W H b)"
  using resizeBox_shape [of h ob dx dy W H b] by (auto simp: fitsIn_def clamp_fit)

lemma dragBox_fields:
  "b_id (dragBox s ox oy W H b) = b_id b"
  "b_width (dragBox s ox oy W H b) = b_width b"
  "b_height (dragBox s ox oy W H b) = b_height b"
  "0 \<le> b_x (dragBox s ox oy W H b)"
  "0 \<le> b_y (dragBox s ox oy W H b)"
  by (simp_all add: dragBox_def)

lemma dragBox_sizeOk: "sizeOk b \<Longrightarrow> sizeOk (dragBox s ox oy W H b)"
  by (simp add: sizeOk_def dragBox_fields)

lemma dragBox_fitsIn: "fitsIn (W, H) (dragBox s ox oy W H b)"
  by (simp add: fitsIn_def dragBox_def clamp_fit)

lemma list_all_map_if:
  "list_all P bs \<Longrightarrow> (\<And>b. b \<in> set bs \<Longrightarrow> \<not> c b \<Longrightarrow> P b \<Longrightarrow> P (f b))
     \<Longrightarrow> list_all P (map (\<lambda>b. if c b then b else f b) bs)"
  by (induction bs) auto

lemma ids_map_if:
  "(\<And>b. b_id (f b) = b_id b) \<Longrightarrow> map b_id (map (\<lambda>b. if c b then b else f b) bs) = map b_id bs"
  by (induction bs) auto

lemma find_unique:
  assumes "distinct (map b_id bs)" "find (\<lambda>b. b_id b = aid) bs = Some cur"
    and "b \<in> set bs" "b_id b = aid"
  shows "b = cur"
proof -
  from assms(2) have "cur \<in> set bs" "b_id cur = aid"
    by (auto simp: find_Some_iff)
  moreover have "inj_on b_id (set bs)" using assms(1) by (simp add: distinct_map)
  ultimately show ?thesis using assms(3,4) by (auto dest: inj_onD)
qed

lemma find_in_set: "find p bs = Some cur \<Longrightarrow> cur \<in> set bs"
  by (auto simp: find_Some_iff)

lemma boxesMap_handleMouseDown: "boxesMap (handleMouseDown cv e index st) = boxesMap st"
  by (simp add: handleMouseDown_def Let_def split: option.splits prod.splits)

lemma handleMouseMove_cases:
  "handleMouseMove cv e index st = st
   \<or> (\<exists>p. handleMouseMove cv e index st = st\<lparr>panOffset := p\<rparr>)
   \<or> (\<exists>canvas aid h ob dx dy. cv = Some canvas \<and>
         handleMouseMove cv e index st =
           updateBoxesForIndex index
             (map (\<lambda>box. if b_id box \<noteq> aid then box
                         else resizeBox h ob dx dy (cv_originalWidth canvas)
                                (cv_originalHeight canvas) box)) st)
   \<or> (\<exists>canvas aid s ox oy. cv = Some canvas \<and>
         handleMouseMove cv e index st =
           updateBoxesForIndex index
             (map (\<lambda>b. if b_id b \<noteq> aid then b
                       else dragBox s ox oy (cv_originalWidth canvas)
                              (cv_originalHeight canvas) b)) st)"
proof (cases cv)
  case None
  then show ?thesis by (simp add: handleMouseMove_def)
next
  case (Some canvas)
  show ?thesis
  proof (cases "isPanning st \<and> index = activeIdx st")
    case True
    then have "handleMouseMove cv e index st
        = st\<lparr>panOffset := (clientX e - fst (panStart st), clientY e - snd (panStart st))\<rparr>"
      using Some by (simp add: handleMouseMove_def)
    then show ?thesis by blast
  next
    case False
    show ?thesis
    proof (cases "isResizing st \<and> activeId st \<noteq> None \<and> resizeHandle st \<noteq> None")
      case True
      then obtain aid h where a: "isResizing st" "activeId st = Some aid" "resizeHandle st = Some h"
        by auto
      show ?thesis
      proof (cases "resizeStartBoxRef st")
        case None
        then have "handleMouseMove cv e index st = st"
          using Some False a by (auto simp: handleMouseMove_def Let_def)
        then show ?thesis by simp
      next
        case (Some ob)
        have "handleMouseMove cv e index st =
           updateBoxesForIndex index
             (map (\<lambda>box. if b_id box \<noteq> aid then box
                         else resizeBox h ob
                                ((clientX e - cv_left canvas
                                   - fst (if index = activeIdx st then panOffset st else (0, 0)))
                                  / cv_scale canvas - fst (dragStart st))
                                ((clientY e - cv_top canvas
                                   - snd (if index = activeIdx st then panOffset st else (0, 0)))
                                  / cv_scale canvas - snd (dragStart st))
                                (cv_originalWidth canvas) (cv_originalHeight canvas) box)) st"
          using \<open>cv = Some canvas\<close> False a Some by (auto simp: handleMouseMove_def Let_def)
        then show ?thesis using \<open>cv = Some canvas\<close> by blast
      qed
    next
      case nr: False
      show ?thesis
      proof (cases "isDragging st \<and> activeId st \<noteq> None")
        case True
        then obtain aid where a: "isDragging st" "activeId st = Some aid" by auto
        have "handleMouseMove cv e index st =
           updateBoxesForIndex index
             (map (\<lambda>b. if b_id b \<noteq> aid then b
                       else dragBox (dragStart st)
                              ((clientX e - cv_left canvas
                                 - fst (if index = activeIdx st then panOffset st else (0, 0)))
                                / cv_scale canvas)
                              ((clientY e - cv_top canvas
                                 - snd (if index = activeIdx st then panOffset st else (0, 0)))
                                / cv_scale canvas)
                              (cv_originalWidth canvas) (cv_originalHeight canvas) b)) st"
          using Some False nr a
          by (auto simp: handleMouseMove_def Let_def split: bool.splits option.splits)
        then show ?thesis using Some by blast
      next
        case nd: False
        have "handleMouseMove cv e index st = st"
          using Some False nr nd
          by (auto simp: handleMouseMove_def Let_def split: bool.splits option.splits)
        then show ?thesis by simp
      qed
    qed
  qed
qed

lemma fitted_map_if:
  assumes "fitted wh bs" "\<And>b. b_id (f b) = b_id b"
    and "\<And>b. b \<in> set bs \<Longrightarrow> \<not> c b \<Longrightarrow> sizeOk b \<Longrightarrow> sizeOk (f b) \<and> fitsIn wh (f b)"
  shows "fitted wh (map (\<lambda>b. if c b then b else f b) bs)"
proof -
  have i: "map b_id (map (\<lambda>b. if c b then b else f b) bs) = map b_id bs"
    using assms(2) by (rule ids_map_if)
  have "list_all (\<lambda>b. sizeOk b \<and> fitsIn wh b) (map (\<lambda>b. if c b then b else f b) bs)"
    using assms(1,3) by (intro list_all_map_if) (auto simp: fitted_def)
  then show ?thesis using assms(1) unfolding fitted_def i by simp
qed

lemma handleMouseMove_sized:
  assumes "\<And>j. list_all sizeOk (boxesAt (boxesMap st) j)"
  shows "list_all sizeOk (boxesAt (boxesMap (handleMouseMove cv e index st)) j)"
  using handleMouseMove_cases [of cv e index st] assms
  by (auto simp: boxes_updateBoxesForIndex intro!: list_all_map_if resizeBox_sizeOk dragBox_sizeOk)

lemma handleMouseMove_fitted:
  assumes "bounded dims (MouseMove cv e index)"
    and "\<And>j. fitted (dims j) (boxesAt (boxesMap st) j)"
  shows "fitted (dims j) (boxesAt (boxesMap (handleMouseMove cv e index st)) j)"
proof -
  have d: "cv = Some canvas \<Longrightarrow> (cv_originalWidth canvas, cv_originalHeight canvas) = dims index"
    for canvas using assms(1) by (simp add: prod_eq_iff)
  have r: "cv = Some canvas \<Longrightarrow> sizeOk b \<Longrightarrow>
      sizeOk (resizeBox h ob dx dy (cv_originalWidth canvas) (cv_originalHeight canvas) b)
      \<and> fitsIn (dims index) (resizeBox h ob dx dy (cv_originalWidth canvas) (cv_originalHeight canvas) b)"
    for canvas h ob dx dy b
    using resizeBox_fitsIn [of "cv_originalWidth canvas" "cv_originalHeight canvas" h ob dx dy b]
    by (simp add: d resizeBox_sizeOk)
  have g: "cv = Some canvas \<Longrightarrow> sizeOk b \<Longrightarrow>
      sizeOk (dragBox s ox oy (cv_originalWidth canvas) (cv_originalHeight canvas) b)
      \<and> fitsIn (dims index) (dragBox s ox oy (cv_originalWidth canvas) (cv_originalHeight canvas) b)"
    for canvas s ox oy b
    using dragBox_fitsIn [of "cv_originalWidth canvas" "cv_originalHeight canvas" s ox oy b]
    by (simp add: d dragBox_sizeOk)
  from handleMouseMove_cases [of cv e index st] show ?thesis
  proof (elim disjE exE conjE)
    assume "handleMouseMove cv e index st = st"
    then show ?thesis using assms(2) by simp
  next
    fix p assume "handleMouseMove cv e index st = st\<lparr>panOffset := p\<rparr>"
    then show ?thesis using assms(2) by simp
  next
    fix canvas aid h ob dx dy
    assume c: "cv = Some canvas" and eq: "handleMouseMove cv e index st =
           updateBoxesForIndex index
             (map (\<lambda>box. if b_id box \<noteq> aid then box
                         else resizeBox h ob dx dy (cv_originalWidth canvas)
                                (cv_originalHeight canvas) box)) st"
    show ?thesis
    proof (cases "j = index")
      case True
      have "fitted (dims index)
              (map (\<lambda>box. if b_id box \<noteq> aid then box
                         else resizeBox h ob dx dy (cv_originalWidth canvas)
                                (cv_originalHeight canvas) box) (boxesAt (boxesMap st) index))"
        using assms(2) [of index] r [OF c] by (intro fitted_map_if) (auto simp: resizeBox_id)
      then show ?thesis
        using True by (simp add: eq boxes_updateBoxesForIndex)
    next
      case False
      then show ?thesis using assms(2) [of j] by (simp add: eq boxes_updateBoxesForIndex)
    qed
  next
    fix canvas aid s ox oy
    assume c: "cv = Some canvas" and eq: "handleMouseMove cv e index st =
           updateBoxesForIndex index
             (map (\<lambda>b. if b_id b \<noteq> aid then b
                       else dragBox s ox oy (cv_originalWidth canvas)
                              (cv_originalHeight canvas) b)) st"
    show ?thesis
    proof (cases "j = index")
      case True
      have "fitted (dims index)
              (map (\<lambda>b. if b_id b \<noteq> aid then b
                       else dragBox s ox oy (cv_originalWidth canvas)
                              (cv_originalHeight canvas) b) (boxesAt (boxesMap st) index))"
        using assms(2) [of index] g [OF c] by (intro fitted_map_if) (auto simp: dragBox_fields)
      then show ?thesis
        using True by (simp add: eq boxes_updateBoxesForIndex)
    next
      case False
      then show ?thesis using assms(2) [of j] by (simp add: eq boxes_updateBoxesForIndex)
    qed
  qed
qed

lemma updateCropBox_sized:
  assumes "\<And>j. list_all sizeOk (boxesAt (boxesMap st) j)" "\<And>b. sizeOk b \<Longrightarrow> sizeOk (upd b)"
  shows "list_all sizeOk (boxesAt (boxesMap (updateCropBox aid upd st)) j)"
  using assms
  by (auto simp: updateCropBox_def updateBoxes_def boxes_updateBoxesForIndex intro!: list_all_map_if)

lemma removeCropBox_sized:
  assumes "\<And>j. list_all sizeOk (boxesAt (boxesMap st) j)"
  shows "list_all sizeOk (boxesAt (boxesMap (removeCropBox aid st)) j)"
  using assms [of j] assms [of "activeIdx st"]
  by (auto simp: removeCropBox_def updateBoxes_def boxes_updateBoxesForIndex list_all_iff)

lemma removeCropBox_fitted:
  assumes "\<And>j. fitted (dims j) (boxesAt (boxesMap st) j)"
  shows "fitted (dims j) (boxesAt (boxesMap (removeCropBox aid st)) j)"
  using assms [of j] assms [of "activeIdx st"]
  by (auto simp: removeCropBox_def updateBoxes_def boxes_updateBoxesForIndex fitted_def
        list_all_iff distinct_map_filter)

lemma addCropBox_sized:
  assumes "\<And>j. list_all sizeOk (boxesAt (boxesMap st) j)"
  shows "list_all sizeOk (boxesAt (boxesMap (addCropBox index st)) j)"
  using assms [of j] assms [of "activeIdx st"] assms [of "the index"]
  by (cases index) (auto simp: addCropBox_def Let_def boxes_updateBoxesForIndex sizeOk_def)

lemma onKey_sized:
  assumes "\<And>j. list_all sizeOk (boxesAt (boxesMap st) j)"
  shows "list_all sizeOk (boxesAt (boxesMap (onKey k shift st)) j)"
proof (cases "activeId st")
  case None
  then show ?thesis using assms by (simp add: onKey_def)
next
  case aid: (Some aid)
  show ?thesis
  proof (cases "find (\<lambda>b. b_id b = aid) (boxesAt (boxesMap st) (activeIdx st))")
    case None
    then show ?thesis using aid assms by (simp add: onKey_def)
  next
    case cur: (Some cur)
    have c: "sizeOk cur"
      using find_in_set [OF cur] assms [of "activeIdx st"] by (auto simp: list_all_iff)
    have x: "sizeOk b \<Longrightarrow> 0 \<le> v \<Longrightarrow> sizeOk (b\<lparr>b_x := v\<rparr>)" for b v
      by (simp add: sizeOk_def)
    have y: "sizeOk b \<Longrightarrow> 0 \<le> v \<Longrightarrow> sizeOk (b\<lparr>b_y := v\<rparr>)" for b v
      by (simp add: sizeOk_def)
    have r: "sizeOk b \<Longrightarrow> sizeOk (b\<lparr>b_rotation := v\<rparr>)" for b v
      by (simp add: sizeOk_def)
    have p: "0 \<le> b_x cur" "0 \<le> b_y cur" using c by (simp_all add: sizeOk_def)
    have s: "0 \<le> (if shift then 10 else 1 :: real)" by simp
    show ?thesis
    proof (cases k)
      case ArrowLeft
      then show ?thesis using aid cur
        by (simp add: onKey_def Let_def updateCropBox_sized [OF assms] x)
    next
      case ArrowRight
      then show ?thesis using aid cur p s
        by (simp add: onKey_def Let_def updateCropBox_sized [OF assms] x)
    next
      case ArrowUp
      then show ?thesis using aid cur
        by (simp add: onKey_def Let_def updateCropBox_sized [OF assms] y)
    next
      case ArrowDown
      then show ?thesis using aid cur p s
        by (simp add: onKey_def Let_def updateCropBox_sized [OF assms] y)
    next
      case BracketLeft
      then show ?thesis using aid cur
        by (simp add: onKey_def Let_def updateCropBox_sized [OF assms] r)
    next
      case BracketRight
      then show ?thesis using aid cur
        by (simp add: onKey_def Let_def updateCropBox_sized [OF assms] r)
    next
      case Backspace
      then show ?thesis using aid cur assms
        by (simp add: onKey_def Let_def removeCropBox_sized [OF assms])
    next
      case Delete
      then show ?thesis using aid cur assms
        by (simp add: onKey_def Let_def removeCropBox_sized [OF assms])
    next
      case OtherKey
      then show ?thesis using aid cur assms by (simp add: onKey_def Let_def)
    qed
  qed
qed

lemma updateCropBox_fitted:
  assumes f: "\<And>j. fitted (dims j) (boxesAt (boxesMap st) j)"
    and c: "find (\<lambda>b. b_id b = aid) (boxesAt (boxesMap st) (activeIdx st)) = Some cur"
    and i: "\<And>b. b_id (upd b) = b_id b"
    and p: "sizeOk cur \<Longrightarrow> fitsIn (dims (activeIdx st)) cur
              \<Longrightarrow> sizeOk (upd cur) \<and> fitsIn (dims (activeIdx st)) (upd cur)"
  shows "fitted (dims j) (boxesAt (boxesMap (updateCropBox aid upd st)) j)"
proof (cases "j = activeIdx st")
  case False
  then show ?thesis
    using f [of j] by (simp add: updateCropBox_def updateBoxes_def boxes_updateBoxesForIndex)
next
  case True
  let ?bs = "boxesAt (boxesMap st) (activeIdx st)"
  have d: "distinct (map b_id ?bs)" and a: "list_all (\<lambda>b. sizeOk b \<and> fitsIn (dims (activeIdx st)) b) ?bs"
    using f [of "activeIdx st"] by (simp_all add: fitted_def)
  have k: "sizeOk (upd b) \<and> fitsIn (dims (activeIdx st)) (upd b)"
    if "b \<in> set ?bs" "\<not> b_id b \<noteq> aid" for b
  proof -
    have "b = cur" using find_unique [OF d c that(1)] that(2) by simp
    moreover have "sizeOk cur \<and> fitsIn (dims (activeIdx st)) cur"
      using a find_in_set [OF c] by (auto simp: list_all_iff)
    ultimately show ?thesis using p by simp
  qed
  have "fitted (dims (activeIdx st)) (map (\<lambda>b. if b_id b \<noteq> aid then b else upd b) ?bs)"
    using f [of "activeIdx st"] i k by (intro fitted_map_if) auto
  then show ?thesis
    using True by (simp add: updateCropBox_def updateBoxes_def boxes_updateBoxesForIndex)
qed

lemma nudge_back_x:
  "sizeOk cur \<Longrightarrow> fitsIn wh cur \<Longrightarrow> 0 \<le> s
     \<Longrightarrow> sizeOk (cur\<lparr>b_x := max 0 (b_x cur - s)\<rparr>) \<and> fitsIn wh (cur\<lparr>b_x := max 0 (b_x cur - s)\<rparr>)"
  by (auto simp: sizeOk_def fitsIn_def max_def)

lemma nudge_back_y:
  "sizeOk cur \<Longrightarrow> fitsIn wh cur \<Longrightarrow> 0 \<le> s
     \<Longrightarrow> sizeOk (cur\<lparr>b_y := max 0 (b_y cur - s)\<rparr>) \<and> fitsIn wh (cur\<lparr>b_y := max 0 (b_y cur - s)\<rparr>)"
  by (auto simp: sizeOk_def fitsIn_def max_def)

lemma turn_keeps:
  "sizeOk cur \<Longrightarrow> fitsIn wh cur
     \<Longrightarrow> sizeOk (cur\<lparr>b_rotation := v\<rparr>) \<and> fitsIn wh (cur\<lparr>b_rotation := v\<rparr>)"
  by (auto simp: sizeOk_def fitsIn_def)

lemma onKey_fitted:
  assumes "k \<noteq> ArrowRight" "k \<noteq> ArrowDown"
    and f: "\<And>j. fitted (dims j) (boxesAt (boxesMap st) j)"
  shows "fitted (dims j) (boxesAt (boxesMap (onKey k shift st)) j)"
proof (cases "activeId st")
  case None
  then show ?thesis using f by (simp add: onKey_def)
next
  case aid: (Some aid)
  show ?thesis
  proof (cases "find (\<lambda>b. b_id b = aid) (boxesAt (boxesMap st) (activeIdx st))")
    case None
    then show ?thesis using aid f by (simp add: onKey_def)
  next
    case cur: (Some cur)
    have s: "0 \<le> (if shift then 10 else 1 :: real)" by simp
    note u = updateCropBox_fitted [of dims st aid cur, OF f cur]
    show ?thesis
    proof (cases k)
      case ArrowLeft
      have "fitted (dims j) (boxesAt (boxesMap (updateCropBox aid
               (\<lambda>b. b\<lparr>b_x := max 0 (b_x cur - (if shift then 10 else 1))\<rparr>) st)) j)"
        by (rule u) (simp_all add: nudge_back_x [OF _ _ s])
      then show ?thesis using ArrowLeft aid cur by (simp add: onKey_def Let_def)
    next
      case ArrowUp
      have "fitted (dims j) (boxesAt (boxesMap (updateCropBox aid
               (\<lambda>b. b\<lparr>b_y := max 0 (b_y cur - (if shift then 10 else 1))\<rparr>) st)) j)"
        by (rule u) (simp_all add: nudge_back_y [OF _ _ s])
      then show ?thesis using ArrowUp aid cur by (simp add: onKey_def Let_def)
    next
      case BracketLeft
      have "fitted (dims j) (boxesAt (boxesMap (updateCropBox aid
               (\<lambda>b. b\<lparr>b_rotation := b_rotation cur - 15 / 100\<rparr>) st)) j)"
        by (rule u) (simp_all add: turn_keeps)
      then show ?thesis using BracketLeft aid cur by (simp add: onKey_def Let_def)
    next
      case BracketRight
      have "fitted (dims j) (boxesAt (boxesMap (updateCropBox aid
               (\<lambda>b. b\<lparr>b_rotation := b_rotation cur + 15 / 100\<rparr>) st)) j)"
        by (rule u) (simp_all add: turn_keeps)
      then show ?thesis using BracketRight aid cur by (simp add: onKey_def Let_def)
    next
      case Backspace
      then show ?thesis using aid cur f
        by (simp add: onKey_def Let_def removeCropBox_fitted [of dims, OF f])
    next
      case Delete
      then show ?thesis using aid cur f
        by (simp add: onKey_def Let_def removeCropBox_fitted [of dims, OF f])
    next
      case OtherKey
      then show ?thesis using aid cur f by (simp add: onKey_def Let_def)
    qed (use assms in simp_all)
  qed
qed

lemma boxesMap_unchanged:
  "boxesMap (handleMouseUp st) = boxesMap st"
  "boxesMap (setActiveByThumb i st) = boxesMap st"
  "boxesMap (focusButton i st) = boxesMap st"
  "boxesMap (handleZoomIn st) = boxesMap st"
  "boxesMap (handleZoomOut st) = boxesMap st"
  "boxesMap (handleResetView st) = boxesMap st"
  by (simp_all add: handleMouseUp_def setActiveByThumb_def focusButton_def handleZoomIn_def
        handleZoomOut_def handleResetView_def)

lemma step_sized:
  assumes "\<And>j. list_all sizeOk (boxesAt (boxesMap st) j)"
  shows "list_all sizeOk (boxesAt (boxesMap (step ev st)) j)"
  using assms
  by (cases ev)
     (simp_all add: boxesMap_handleMouseDown boxesMap_unchanged handleMouseMove_sized onKey_sized
        addCropBox_sized removeCropBox_sized)

lemma step_fitted:
  assumes "bounded dims ev" "\<And>j. fitted (dims j) (boxesAt (boxesMap st) j)"
  shows "fitted (dims j) (boxesAt (boxesMap (step ev st)) j)"
proof (cases ev)
  case (MouseMove cv e index)
  then show ?thesis using assms handleMouseMove_fitted [of dims cv e index st j] by simp
next
  case (KeyDown k shift)
  then show ?thesis using assms onKey_fitted [of k dims st j shift] by simp
next
  case (RemoveBox i)
  then show ?thesis using assms removeCropBox_fitted [of dims st j i] by simp
qed (use assms in \<open>simp_all add: boxesMap_handleMouseDown boxesMap_unchanged\<close>)

lemma run_sized:
  "(\<And>j. list_all sizeOk (boxesAt (boxesMap st) j))
     \<Longrightarrow> list_all sizeOk (boxesAt (boxesMap (run evs st)) j)"
proof (induction evs arbitrary: st j)
  case Nil
  then show ?case by (simp add: run_def)
next
  case (Cons ev evs)
  have "list_all sizeOk (boxesAt (boxesMap (run evs (step ev st))) j)"
    by (rule Cons.IH) (rule step_sized, rule Cons.prems)
  then show ?case by (simp add: run_def)
qed

lemma run_fitted:
  "list_all (bounded dims) evs \<Longrightarrow> (\<And>j. fitted (dims j) (boxesAt (boxesMap st) j))
     \<Longrightarrow> fitted (dims j) (boxesAt (boxesMap (run evs st)) j)"
proof (induction evs arbitrary: st j)
  case Nil
  then show ?case by (simp add: run_def)
next
  case (Cons ev evs)
  have "fitted (dims j) (boxesAt (boxesMap (run evs (step ev st))) j)"
  proof (rule Cons.IH)
    show "list_all (bounded dims) evs" using Cons.prems(1) by simp
    show "fitted (dims j) (boxesAt (boxesMap (step ev st)) j)" for j
      using Cons.prems by (intro step_fitted) simp_all
  qed
  then show ?case by (simp add: run_def)
qed

lemma exState_boxes: "boxesAt (boxesMap (exState bs)) j = (if j = 0 then bs else [])"
  by (simp add: exState_def boxesAt_def)

lemma exState_fields:
  "activeIdx (exState bs) = 0" "panOffset (exState bs) = (0, 0)" "zoom (exState bs) = 1"
  "isPanning (exState bs) = False" "isDragging (exState bs) = False"
  "isResizing (exState bs) = False" "activeCropId (exState bs) = Some 1"
  "resizeHandle (exState bs) = None" "resizeStartBoxRef (exState bs) = None"
  "dragStart (exState bs) = (0, 0)" "appMode (exState bs) = Catalog"
  "selectedVendorId (exState bs) = ''1''"
  by (simp_all add: exState_def)

lemma exCropBox_fields:
  "b_id (exCropBox x y w h) = 1" "b_x (exCropBox x y w h) = x" "b_y (exCropBox x y w h) = y"
  "b_width (exCropBox x y w h) = w" "b_height (exCropBox x y w h) = h"
  by (simp_all add: exCropBox_def)

lemma exCanvas_fields:
  "cv_left (exCanvas W H) = 0" "cv_top (exCanvas W H) = 0" "cv_scale (exCanvas W H) = 1"
  "cv_originalWidth (exCanvas W H) = W" "cv_originalHeight (exCanvas W H) = H"
  by (simp_all add: exCanvas_def)

lemma exPointer_fields:
  "clientX (exPointer x y) = x" "clientY (exPointer x y) = y" "shiftKey (exPointer x y) = False"
  by (simp_all add: exPointer_def)

lemma grab_body:
  "handleMouseDown (Some (exCanvas 800 600)) (exPointer 770 25) 0 (exState [exCropBox 740 10 60 30])
     = (exState [exCropBox 740 10 60 30])\<lparr>isDragging := True, activeCropId := Some 1,
          dragStart := (30, 15)\<rparr>"
  by (simp add: handleMouseDown_def Let_def exState_boxes exState_fields exCropBox_fields
        exCanvas_fields exPointer_fields getResizeHandle_def insideBox_def)

lemma drag_right:
  "boxesAt (boxesMap (handleMouseMove (Some (exCanvas 800 600)) (exPointer 799 25) 0
      ((exState [exCropBox 740 10 60 30])\<lparr>isDragging := True, activeCropId := Some 1,
          dragStart := (30, 15)\<rparr>))) 0 = [exCropBox 740 10 60 30]"
  by (simp add: handleMouseMove_def Let_def exState_fields exCanvas_fields exPointer_fields
        activeId_def boxes_updateBoxesForIndex exState_boxes exCropBox_fields dragBox_def snap_def)

lemma updateBoxesForIndex_fields:
  "activeIdx (updateBoxesForIndex i u st) = activeIdx st"
  "activeCropId (updateBoxesForIndex i u st) = activeCropId st"
  by (simp_all add: updateBoxesForIndex_def)

lemma handleMouseMove_fields:
  "activeIdx (handleMouseMove cv e index st) = activeIdx st"
  "activeCropId (handleMouseMove cv e index st) = activeCropId st"
  using handleMouseMove_cases [of cv e index st]
  by (auto simp: updateBoxesForIndex_fields)

lemma handleMouseUp_fields:
  "activeIdx (handleMouseUp st) = activeIdx st"
  "activeCropId (handleMouseUp st) = activeCropId st"
  by (simp_all add: handleMouseUp_def)

lemma onKey_left_single:
  assumes "activeCropId st = Some aid" "aid \<noteq> 0"
    and "boxesAt (boxesMap st) (activeIdx st) = [b]" "b_id b = aid"
  shows "boxesAt (boxesMap (onKey ArrowLeft shift st)) (activeIdx st)
           = [b\<lparr>b_x := max 0 (b_x b - (if shift then 10 else 1))\<rparr>]"
  using assms
  by (simp add: onKey_def activeId_def Let_def updateCropBox_def updateBoxes_def
        boxes_updateBoxesForIndex)

lemma onKey_right_single:
  assumes "activeCropId st = Some aid" "aid \<noteq> 0"
    and "boxesAt (boxesMap st) (activeIdx st) = [b]" "b_id b = aid"
  shows "boxesAt (boxesMap (onKey ArrowRight shift st)) (activeIdx st)
           = [b\<lparr>b_x := b_x b + (if shift then 10 else 1)\<rparr>]"
  using assms
  by (simp add: onKey_def activeId_def Let_def updateCropBox_def updateBoxes_def
        boxes_updateBoxesForIndex)

lemma run_dragEvents:
  "boxesAt (boxesMap (run dragEvents (exState [exCropBox 740 10 60 30]))) 0
     = [exCropBox 739 10 60 30]"
proof -
  let ?s1 = "(exState [exCropBox 740 10 60 30])\<lparr>isDragging := True, activeCropId := Some 1,
          dragStart := (30, 15)\<rparr>"
  let ?s2 = "handleMouseMove (Some (exCanvas 800 600)) (exPointer 799 25) 0 ?s1"
  let ?s3 = "handleMouseUp ?s2"
  have r: "run dragEvents (exState [exCropBox 740 10 60 30]) = onKey ArrowLeft False ?s3"
    by (simp add: run_def dragEvents_def grab_body)
  have i: "activeIdx ?s3 = 0" "activeCropId ?s3 = Some 1"
    by (simp_all add: handleMouseUp_fields handleMouseMove_fields exState_fields)
  have b: "boxesAt (boxesMap ?s3) (activeIdx ?s3) = [exCropBox 740 10 60 30]"
    unfolding i by (simp only: boxesMap_unchanged drag_right)
  have "boxesAt (boxesMap (onKey ArrowLeft False ?s3)) (activeIdx ?s3)
          = [(exCropBox 740 10 60 30)\<lparr>b_x := max 0 (b_x (exCropBox 740 10 60 30) - (if False then 10 else 1))\<rparr>]"
    by (rule onKey_left_single [OF i(2) _ b]) (simp_all add: exCropBox_fields)
  then show ?thesis unfolding r i by (simp add: exCropBox_def)
qed

lemma nudge_right:
  "boxesAt (boxesMap (run [KeyDown ArrowRight False] (exState [exCropBox 740 10 60 30]))) 0
     = [exCropBox 741 10 60 30]"
proof -
  let ?s = "exState [exCropBox 740 10 60 30]"
  have "boxesAt (boxesMap (onKey ArrowRight False ?s)) (activeIdx ?s)
          = [(exCropBox 740 10 60 30)\<lparr>b_x := b_x (exCropBox 740 10 60 30) + (if False then 10 else 1)\<rparr>]"
    by (rule onKey_right_single [where aid = 1])
       (simp_all add: exState_fields exState_boxes exCropBox_fields)
  then show ?thesis by (simp add: run_def exState_fields exCropBox_def)
qed

lemma add_on_small_image:
  "boxesAt (boxesMap (run [AddBox None] (exState []))) 0
     = [\<lparr> b_id = 1, b_x = 70, b_y = 70, b_width = 400, b_height = 120, b_itemNumber = ''PR'',
          b_color = ''#ff0000'', b_rotation = 0, b_flipVertical = False \<rparr>]"
  by (simp add: run_def addCropBox_def Let_def boxes_updateBoxesForIndex exState_fields
        exState_boxes getVendorPrefix_def colors_def)

lemma grab_east:
  "handleMouseDown (Some (exCanvas 300 300)) (exPointer 50 150) 0 pannedState
     = pannedState\<lparr>isResizing := True, resizeHandle := Some He, activeCropId := Some 1,
          dragStart := (200, 150), resizeStartBoxRef := Some (exCropBox 100 100 100 100)\<rparr>"
  by (simp add: pannedState_def handleMouseDown_def Let_def exState_boxes exState_fields
        exCropBox_fields exCanvas_fields exPointer_fields getResizeHandle_def)

lemma pull_east:
  "boxesAt (boxesMap (run [MouseDown (Some (exCanvas 300 300)) (exPointer 50 150) 0,
                            MouseMove (Some (exCanvas 300 300)) (exPointer 440 150) 0]
                       pannedState)) 0
     = [exCropBox 0 100 490 100]"
  unfolding run_def fold_simps comp_apply id_apply step.simps grab_east
  by (simp add: pannedState_def handleMouseMove_def Let_def exState_fields exCanvas_fields
        exPointer_fields activeId_def boxes_updateBoxesForIndex exState_boxes exCropBox_fields
        resizeBox_def)
     (simp add: exCropBox_def)

lemma grab_west:
  "handleMouseDown (Some (exCanvas 800 600)) (exPointer 100 150) 0 (exState [exCropBox 100 100 100 100])
     = (exState [exCropBox 100 100 100 100])\<lparr>isResizing := True, resizeHandle := Some Hw,
          activeCropId := Some 1, dragStart := (100, 150),
          resizeStartBoxRef := Some (exCropBox 100 100 100 100)\<rparr>"
  by (simp add: handleMouseDown_def Let_def exState_boxes exState_fields
        exCropBox_fields exCanvas_fields exPointer_fields getResizeHandle_def)

lemma push_west:
  "boxesAt (boxesMap (run [MouseDown (Some (exCanvas 800 600)) (exPointer 100 150) 0,
                            MouseMove (Some (exCanvas 800 600)) (exPointer x 150) 0]
                       (exState [exCropBox 100 100 100 100]))) 0
     = [exCropBox (max 0 (min (800 - max 50 (200 - x)) x)) 100 (max 50 (200 - x)) 100]"
  unfolding run_def fold_simps comp_apply id_apply step.simps grab_west
  by (simp add: handleMouseMove_def Let_def exState_fields exCanvas_fields
        exPointer_fields activeId_def boxes_updateBoxesForIndex exState_boxes exCropBox_fields
        resizeBox_def)
     (simp add: exCropBox_def)

lemma focus_keeps_view:
  "zoom (focusButton i st) = zoom st" "panOffset (focusButton i st) = panOffset st"
  "activeIdx (focusButton i st) = i"
  by (simp_all add: focusButton_def)

lemma mouseDown_keeps_view:
  "zoom (handleMouseDown cv e i st) = zoom st"
  "panOffset (handleMouseDown cv e i st) = panOffset st"
  "activeIdx (handleMouseDown cv e i st) = i"
  by (simp_all add: handleMouseDown_def Let_def split: option.splits prod.splits)

lemma zoomedState_fields:
  "zoom zoomedState = 2" "panOffset zoomedState = (30, 40)" "activeIdx zoomedState = 0"
  by (simp_all add: zoomedState_def exState_def)

section \<open>The claims\<close>

text \<open>
  C6. When the request selects the strategy \<open>nurre\<close>, the region strategy returns no
  item number and the whole-image strategy \<open>presto\<close> returns on the same preprocessed
  image, the route answers with the detections and item numbers of \<open>presto\<close>.
\<close>

theorem nurre_fallback_equals_presto:
  assumes "upload req = Some f"
    and "selectStrategy req = ''nurre''"
    and "imgMetadata env f = Inr (imgW, imgH)"
    and "preCommon env f (min 2200 (if imgW = 0 then 2200 else imgW)) = Inr pre"
    and "detectNurreBig env pre imgW imgH = Inr out"
    and "itemNumbers out = []"
    and "detectPresto env pre imgW imgH = Inr prestoOut"
  shows "detectRoute env req =
           Json 200 \<lparr> detections = detections prestoOut, itemNumbers = itemNumbers prestoOut,
                      imageWidth = Some imgW, imageHeight = Some imgH,
                      strategyUsed = Some ''nurre'' \<rparr>"
proof (cases "itemNumbers prestoOut = []")
  case True
  then have "detections prestoOut = []" using assms(7) by (rule detectPresto_shape [rotated])
  moreover have "detections out = []" using assms(5,6) by (rule detectNurreBig_shape)
  ultimately show ?thesis
    using assms True by (simp add: detectRoute_def detectCore_def runStrategy_def)
next
  case False
  then show ?thesis
    using assms by (simp add: detectRoute_def detectCore_def runStrategy_def)
qed

theorem nurre_fallback_equals_presto_witness:
  "selectStrategy (stubReq (Some 7) (Some ''nurre'')) = ''nurre''
   \<and> detectNurreBig stubEnv 7 1500 2000 = Inr \<lparr> detections = [], itemNumbers = [] \<rparr>
   \<and> detectRoute stubEnv (stubReq (Some 7) (Some ''nurre'')) =
       Json 200 \<lparr> detections = [\<lparr> d_text = ''1234'', d_x = 10, d_y = 100, d_w = 120, d_h = 40, d_conf = 90 \<rparr>],
                  itemNumbers = [''1234''], imageWidth = Some 1500, imageHeight = Some 2000,
                  strategyUsed = Some ''nurre'' \<rparr>"
proof -
  have "detectRoute stubEnv (stubReq (Some 7) (Some ''nurre'')) =
          Json 200 \<lparr> detections = detections (prestoFromWords 1500 2000 [stubWord]),
                     itemNumbers = itemNumbers (prestoFromWords 1500 2000 [stubWord]),
                     imageWidth = Some 1500, imageHeight = Some 2000, strategyUsed = Some ''nurre'' \<rparr>"
    by (rule nurre_fallback_equals_presto [where f = 7 and pre = 7, OF _ stub_select _ _ stub_nurre _ stub_prestoRun])
       (simp_all add: stubReq_def stubEnv_def)
  then show ?thesis using stub_select stub_nurre by (simp add: stub_presto)
qed

text \<open>
  C7. The detection route always answers with status 200. Without an upload, when the
  handler's \<^verbatim>\<open>try\<close> block throws (in particular when the recogniser throws), the
  body is \<^verbatim>\<open>{ detections: [], itemNumbers: [] }\<close>; when the recogniser finds no
  word, both lists are empty.
\<close>

theorem detect_route_never_errors:
  "status (detectRoute env req) = 200
   \<and> (upload req = None \<longrightarrow> detectRoute env req = Json 200 emptyBody)
   \<and> (\<forall>f e. upload req = Some f \<and> detectCore env req f = Inl e
         \<longrightarrow> detectRoute env req = Json 200 emptyBody)
   \<and> ((\<forall>buf psm. \<exists>e. ocrRecognize env buf psm = Inl e)
         \<longrightarrow> detectRoute env req = Json 200 emptyBody)
   \<and> ((\<forall>buf psm. ocrRecognize env buf psm = Inr [])
         \<longrightarrow> (\<exists>b. detectRoute env req = Json 200 b \<and> detections b = [] \<and> itemNumbers b = []))"
proof (intro conjI impI allI)
  show "status (detectRoute env req) = 200"
    by (simp add: detectRoute_def split: option.splits sum.splits)
  show "upload req = None \<Longrightarrow> detectRoute env req = Json 200 emptyBody"
    by (simp add: detectRoute_def)
  show "upload req = Some f \<and> detectCore env req f = Inl e \<Longrightarrow> detectRoute env req = Json 200 emptyBody" for f e
    by (simp add: detectRoute_def)
next
  assume a: "\<forall>buf psm. \<exists>e. ocrRecognize env buf psm = Inl e"
  have p: "\<exists>e. detectPresto env b w h = Inl e" for b w h
    using a [rule_format, of b "''11''"] by (auto simp: detectPresto_def)
  have n: "\<exists>e. detectNurreBig env b w h = Inl e" for b w h
    using a by (auto simp: detectNurreBig_def split: sum.splits) (metis sum.distinct(1))
  have rs: "runStrategy env s b w h \<noteq> Inr out" for s b w h out
    using p [of b w h] n [of b w h] by (auto simp: runStrategy_def)
  have "detectCore env req f \<noteq> Inr b" for f b
    by (auto simp: detectCore_def Let_def rs split: sum.splits prod.splits)
  then show "detectRoute env req = Json 200 emptyBody"
    by (auto simp: detectRoute_def split: option.splits sum.splits)
next
  assume a: "\<forall>buf psm. ocrRecognize env buf psm = Inr []"
  have e: "prestoFromWords w h [] = \<lparr> detections = [], itemNumbers = [] \<rparr>" for w h
    by (simp add: prestoFromWords_def prestoCandidates_def dedupRows_def mkOut_def)
  have p: "detectPresto env b w h = Inr \<lparr> detections = [], itemNumbers = [] \<rparr>" for b w h
    using a by (simp add: detectPresto_def e)
  have n: "detectNurreBig env b w h = Inr out \<Longrightarrow> out = \<lparr> detections = [], itemNumbers = [] \<rparr>" for b w h out
    using a by (auto simp: detectNurreBig_def nurreFromWords_def mkOut_def Let_def split: sum.splits)
  have r: "runStrategy env s b w h = Inr out \<Longrightarrow> out = \<lparr> detections = [], itemNumbers = [] \<rparr>" for s b w h out
    using p [of b w h] n [of b w h] by (auto simp: runStrategy_def split: sum.splits if_splits)
  show "\<exists>b. detectRoute env req = Json 200 b \<and> detections b = [] \<and> itemNumbers b = []"
  proof (cases "upload req")
    case None
    then show ?thesis by (simp add: detectRoute_def emptyBody_def)
  next
    case (Some f)
    show ?thesis
    proof (cases "detectCore env req f")
      case (Inl e)
      then show ?thesis using Some by (simp add: detectRoute_def emptyBody_def)
    next
      case (Inr b)
      then have "detections b = [] \<and> itemNumbers b = []"
        by (auto simp: detectCore_def Let_def split: sum.splits prod.splits dest!: r)
      then show ?thesis using Some Inr by (simp add: detectRoute_def)
    qed
  qed
qed

theorem detect_route_never_errors_witness:
  "upload (stubReq None None) = None
   \<and> detectRoute stubEnv (stubReq None None) = Json 200 emptyBody
   \<and> detectCore failEnv (stubReq (Some 7) None) 7 = Inl (Exn ''recognizer'')
   \<and> detectRoute failEnv (stubReq (Some 7) None) = Json 200 emptyBody
   \<and> (\<forall>buf psm. ocrRecognize blankEnv buf psm = Inr [])
   \<and> (\<exists>b. detectRoute blankEnv (stubReq (Some 7) None) = Json 200 b
          \<and> detections b = [] \<and> itemNumbers b = [])"
  using detect_route_never_errors [of stubEnv "stubReq None None"]
        detect_route_never_errors [of failEnv "stubReq (Some 7) None"]
        detect_route_never_errors [of blankEnv "stubReq (Some 7) None"]
        fail_core
  by (simp add: stubReq_def blankEnv_def)

text \<open>
  C10 (amended). For a request that carries an upload and whose processing does not
  throw, the response's \<open>strategyUsed\<close> is the strategy selected from the request:
  the query parameter, else the body field, else the header, else \<open>presto\<close>; this
  holds also when \<open>nurre\<close> found nothing and the detections are those of the
  \<open>presto\<close> fallback. A request without an upload, or one whose processing throws, is
  answered with \<^verbatim>\<open>{ detections: [], itemNumbers: [] }\<close>, which has no
  \<open>strategyUsed\<close>.
\<close>

theorem strategyUsed_is_requested_strategy:
  "(upload req = Some f \<and> detectCore env req f = Inr b
      \<longrightarrow> detectRoute env req = Json 200 b \<and> strategyUsed b = Some (selectStrategy req))
   \<and> (upload req = None \<or> (\<exists>f e. upload req = Some f \<and> detectCore env req f = Inl e)
      \<longrightarrow> detectRoute env req = Json 200 emptyBody \<and> strategyUsed emptyBody = None)
   \<and> selectStrategy req =
       (if present (queryStrategy req) then the (queryStrategy req)
        else if present (bodyStrategy req) then the (bodyStrategy req)
        else if present (headerStrategy req) then the (headerStrategy req)
        else ''presto'')"
proof (intro conjI impI)
  assume "upload req = Some f \<and> detectCore env req f = Inr b"
  then show "detectRoute env req = Json 200 b" by (simp add: detectRoute_def)
next
  assume "upload req = Some f \<and> detectCore env req f = Inr b"
  then show "strategyUsed b = Some (selectStrategy req)"
    by (auto simp: detectCore_def Let_def split: sum.splits prod.splits)
next
  assume "upload req = None \<or> (\<exists>f e. upload req = Some f \<and> detectCore env req f = Inl e)"
  then show "detectRoute env req = Json 200 emptyBody" by (auto simp: detectRoute_def)
next
  show "strategyUsed emptyBody = None" by (simp add: emptyBody_def)
next
  show "selectStrategy req =
       (if present (queryStrategy req) then the (queryStrategy req)
        else if present (bodyStrategy req) then the (bodyStrategy req)
        else if present (headerStrategy req) then the (headerStrategy req)
        else ''presto'')"
    by (auto simp: selectStrategy_def orElse_def present_def split: option.splits)
qed

theorem strategyUsed_is_requested_strategy_witness:
  "detectNurreBig stubEnv 7 1500 2000 = Inr \<lparr> detections = [], itemNumbers = [] \<rparr>
   \<and> (\<exists>b. detectRoute stubEnv (stubReq (Some 7) (Some ''nurre'')) = Json 200 b
        \<and> itemNumbers b = [''1234''] \<and> strategyUsed b = Some ''nurre'')
   \<and> detectRoute stubEnv (stubReq None (Some ''nurre'')) = Json 200 emptyBody"
  using strategyUsed_is_requested_strategy [of "stubReq (Some 7) (Some ''nurre'')" 7 stubEnv, unfolded stub_core]
        strategyUsed_is_requested_strategy [of "stubReq None (Some ''nurre'')" 7 stubEnv]
        stub_nurre stub_select [of "Some 7"]
  by (simp add: stubReq_def stub_presto)

text \<open>
  C10 as stated fails: a request that selects \<open>nurre\<close> but carries no upload is
  answered without a \<open>strategyUsed\<close> field.
\<close>

theorem strategyUsed_absent_counterexample:
  "detectRoute stubEnv (stubReq None (Some ''nurre'')) = Json 200 emptyBody
   \<and> selectStrategy (stubReq None (Some ''nurre'')) = ''nurre''
   \<and> strategyUsed emptyBody \<noteq> Some ''nurre''"
  by (simp add: detectRoute_def stubReq_def selectStrategy_def orElse_def emptyBody_def)

text \<open>
  C3 (amended). In \<open>presto\<close> the surviving candidates are sorted by \<open>(y, x)\<close>
  ascending, and a candidate merges into the previously kept one exactly when their
  vertical centres differ by at most \<open>G\<close>, where \<open>G\<close> is \<open>round(0.015 H)\<close> if that is
  not 0 and 15 otherwise (for \<open>H = 0\<close>, 15); the merge keeps the later candidate if its
  confidence is strictly higher and the kept one otherwise. On a 2000 pixel tall image
  \<open>G = 30\<close>: centres 10 apart merge, centres 50 apart do not.
\<close>

theorem presto_row_dedup:
  "dedupRows imgH (cs @ [d]) =
     (let kept = dedupRows imgH cs in
      if kept = [] then [d]
      else if \<bar>c_cy d - c_cy (last kept)\<bar> \<le> real_of_int (MERGE_GAP imgH)
           then butlast kept @ [if c_conf d > c_conf (last kept) then d else last kept]
           else kept @ [d])
   \<and> MERGE_GAP imgH =
       (if imgH = 0 \<or> round (real imgH * (15 / 1000)) = 0 then 15
        else round (real imgH * (15 / 1000)))
   \<and> sorted (map (\<lambda>c. (c_y c, c_x c)) (prestoCandidates imgW imgH ws))
   \<and> MERGE_GAP 2000 = 30
   \<and> dedupRows 2000 [a, b] =
       (if \<bar>c_cy b - c_cy a\<bar> \<le> 30 then [if c_conf b > c_conf a then b else a] else [a, b])"
proof (intro conjI)
  show "dedupRows imgH (cs @ [d]) =
     (let kept = dedupRows imgH cs in
      if kept = [] then [d]
      else if \<bar>c_cy d - c_cy (last kept)\<bar> \<le> real_of_int (MERGE_GAP imgH)
           then butlast kept @ [if c_conf d > c_conf (last kept) then d else last kept]
           else kept @ [d])"
    unfolding dedupRows_def dedupLoop_snoc
    by (auto simp: dedupStep_def Let_def update_last)
  show "MERGE_GAP imgH =
       (if imgH = 0 \<or> round (real imgH * (15 / 1000)) = 0 then 15
        else round (real imgH * (15 / 1000)))"
    by (simp add: MERGE_GAP_def Let_def round_def)
  show "sorted (map (\<lambda>c. (c_y c, c_x c)) (prestoCandidates imgW imgH ws))"
    by (simp add: prestoCandidates_def)
  show "MERGE_GAP 2000 = 30" by (rule MERGE_GAP_values)
  show "dedupRows 2000 [a, b] =
       (if \<bar>c_cy b - c_cy a\<bar> \<le> 30 then [if c_conf b > c_conf a then b else a] else [a, b])"
    by (simp add: dedupRows_def dedupStep_def MERGE_GAP_values)
qed

theorem presto_row_dedup_witness:
  "dedupRows 2000 [exCand 100 80, exCand 110 90] = [exCand 110 90]
   \<and> dedupRows 2000 [exCand 100 80, exCand 150 90] = [exCand 100 80, exCand 150 90]"
  using presto_row_dedup [of 2000 "[]" "exCand 100 80" 0 "[]" "exCand 100 80" "exCand 110 90"]
        presto_row_dedup [of 2000 "[]" "exCand 100 80" 0 "[]" "exCand 100 80" "exCand 150 90"]
  by (simp add: exCand_def)

text \<open>
  C3 as stated fails twice. On a 400 pixel tall image the threshold is 6, not
  \<open>max(6, 15)\<close>: centres 10 apart stay separate. On a 2000 pixel tall image centres
  exactly 30 apart merge, although 30 is not less than 30.
\<close>

theorem presto_row_dedup_counterexample:
  "length (dedupRows 400 [exCand 100 90, exCand 110 80]) = 2
   \<and> \<bar>c_cy (exCand 110 80) - c_cy (exCand 100 90)\<bar>
        < real_of_int (max (round (real 400 * (15 / 1000))) 15)
   \<and> length (dedupRows 2000 [exCand 100 90, exCand 130 80]) = 1
   \<and> \<not> \<bar>c_cy (exCand 130 80) - c_cy (exCand 100 90)\<bar>
        < real_of_int (max (round (real 2000 * (15 / 1000))) 15)"
  by (simp add: dedupRows_def dedupStep_def MERGE_GAP_values exCand_def round_def)

text \<open>
  C4 (amended). For a batch whose elements are all box objects, every box is processed:
  each ends with an entry or with a caught error. The response lists exactly the
  entries, in input order, one per box that was extracted, each carrying the label of its
  box; a box that fails is left out and the boxes after it are still processed. When the
  output directory can be created the route answers 200 with that list.
\<close>

theorem extraction_isolates_failures:
  "length (outcomes env input W H w cs) = length cs
   \<and> snd (cropLoop env input W H w [] (map Some cs))
       = Inr (successes (outcomes env input W H w cs))
   \<and> map detectedNumber (successes (outcomes env input W H w cs))
       = map q_itemNumber (extracted cs (outcomes env input W H w cs))
   \<and> (catalogImage req = Some input \<and> multipleCrops req = Inr (Elements (map Some cs))
        \<and> cropMetadata env input = Inr (W, H) \<and> mkdirSync env = None
      \<longrightarrow> snd (cropRoute env w req) = Json 200 (successes (outcomes env input W H w cs)))"
proof -
  have l: "snd (cropLoop env input W H w [] (map Some cs))
             = Inr (successes (outcomes env input W H w cs))"
    using cropLoop_outcomes [of env input W H w "[]" cs] by (metis append_Nil snd_conv)
  have r: "catalogImage req = Some input \<Longrightarrow> multipleCrops req = Inr (Elements (map Some cs))
        \<Longrightarrow> cropMetadata env input = Inr (W, H) \<Longrightarrow> mkdirSync env = None
        \<Longrightarrow> snd (cropRoute env w req) = Json 200 (successes (outcomes env input W H w cs))"
    using l by (cases "cropLoop env input W H w [] (map Some cs)") (simp add: cropRoute_def)
  show ?thesis
    using r by (simp add: length_outcomes l successes_labels)
qed

theorem extraction_isolates_failures_witness:
  "catalogImage (exRequest exBatch) = Some exImage
   \<and> multipleCrops (exRequest exBatch) = Inr (Elements (map Some exBatch))
   \<and> cropMetadata ioEnv exImage = Inr (2, 2)
   \<and> mkdirSync ioEnv = None
   \<and> outcomes ioEnv exImage 2 2 emptyWorld exBatch =
       [Inr (entryFor ''A1.png'' ''a1''), Inl (Exn ''EACCES''), Inr (entryFor ''C3.png'' ''c3'')]
   \<and> snd (cropRoute ioEnv emptyWorld (exRequest exBatch)) =
       Json 200 [entryFor ''A1.png'' ''a1'', entryFor ''C3.png'' ''c3'']"
proof -
  have h: "catalogImage (exRequest exBatch) = Some exImage"
    "multipleCrops (exRequest exBatch) = Inr (Elements (map Some exBatch))"
    "cropMetadata ioEnv exImage = Inr (2, 2)" "mkdirSync ioEnv = None"
    by (simp_all add: exRequest_def ioEnv_simps exImage_size)
  show ?thesis
    using extraction_isolates_failures [of ioEnv exImage 2 2 emptyWorld exBatch "exRequest exBatch"] h
    by (simp add: io_outcomes)
qed

text \<open>
  C4 as stated fails for a parsed array with a \<^verbatim>\<open>null\<close> element: between two good
  boxes it aborts the batch. The first box is written, the third is never processed and
  the request is answered with status 500 instead of the two entries.
\<close>

theorem null_element_aborts_batch_counterexample:
  "cropRoute refEnv emptyWorld nullRequest
     = (\<lparr>files = [(''A1.png'', exImage)], clockReads = 0\<rparr>,
        Send 500 ''Cannot read properties of null'')"
proof -
  have "cropOne refEnv exImage 2 2 emptyWorld (exBox ''a1'' False)
          = (\<lparr>files = [(''A1.png'', exImage)], clockReads = 0\<rparr>, Inr (entryFor ''A1.png'' ''a1''))"
    by (simp add: cropOne_exBox refEnv_simps cleanLabel_examples freeName_fresh emptyWorld_def)
  then show ?thesis
    by (simp add: cropRoute_def nullRequest_def refEnv_simps exImage_size sendError_def
          nullDeref_def)
qed

text \<open>
  C5. The file of an extracted box is named after its label with everything but
  letters and digits removed and the letters in upper case, or after \<open>CROP\<close> and the
  clock reading when nothing is left. The name chosen is free in the output directory and
  is the first free one among \<open>NAME.png\<close>, \<open>NAME_1.png\<close>, \<open>NAME_2.png\<close>, ...: all
  earlier ones exist. The label \<open>ab-12!\<close> gives \<open>AB12.png\<close>, and a second box with that
  label in the same run gives \<open>AB12_1.png\<close>.
\<close>

theorem output_file_name:
  "(cropOne env input W H w c = (w', Inr entry) \<longrightarrow>
      (let clean = (if cleanLabel (q_itemNumber c) = []
                    then ''CROP'' @ showNat (dateNow env (clockReads w))
                    else cleanLabel (q_itemNumber c))
       in \<not> existsSync w (e_id entry)
          \<and> (\<exists>k. e_id entry = candidateName clean k
                \<and> (\<forall>j<k. existsSync w (candidateName clean j)))))
   \<and> cleanLabel ''ab-12!'' = ''AB12''
   \<and> snd (cropLoop refEnv exImage 2 2 emptyWorld []
             [Some (exBox ''ab-12!'' False), Some (exBox ''ab-12!'' False)])
       = Inr [entryFor ''AB12.png'' ''ab-12!'', entryFor ''AB12_1.png'' ''ab-12!'']"
proof (intro conjI impI)
  assume a: "cropOne env input W H w c = (w', Inr entry)"
  show "let clean = (if cleanLabel (q_itemNumber c) = []
                    then ''CROP'' @ showNat (dateNow env (clockReads w))
                    else cleanLabel (q_itemNumber c))
       in \<not> existsSync w (e_id entry)
          \<and> (\<exists>k. e_id entry = candidateName clean k
                \<and> (\<forall>j<k. existsSync w (candidateName clean j)))"
    unfolding Let_def cropOne_name [OF a] by (rule freeName_spec)
next
  show "cleanLabel ''ab-12!'' = ''AB12''" by (rule cleanLabel_examples)
next
  show "snd (cropLoop refEnv exImage 2 2 emptyWorld []
             [Some (exBox ''ab-12!'' False), Some (exBox ''ab-12!'' False)])
       = Inr [entryFor ''AB12.png'' ''ab-12!'', entryFor ''AB12_1.png'' ''ab-12!'']"
    by (simp add: cropOne_first cropOne_second)
qed

theorem output_file_name_witness:
  "cropOne refEnv exImage 2 2 \<lparr>files = [(''AB12.png'', exImage)], clockReads = 0\<rparr> (exBox ''ab-12!'' False)
     = (\<lparr>files = [(''AB12_1.png'', exImage), (''AB12.png'', exImage)], clockReads = 0\<rparr>,
        Inr (entryFor ''AB12_1.png'' ''ab-12!''))
   \<and> \<not> existsSync \<lparr>files = [(''AB12.png'', exImage)], clockReads = 0\<rparr> ''AB12_1.png''
   \<and> (\<exists>k. ''AB12_1.png'' = candidateName ''AB12'' k
         \<and> (\<forall>j<k. existsSync \<lparr>files = [(''AB12.png'', exImage)], clockReads = 0\<rparr> (candidateName ''AB12'' j)))"
proof -
  have n: "q_itemNumber (exBox ''ab-12!'' False) = ''ab-12!''" by (simp add: exBox_def)
  have i: "e_id (entryFor ''AB12_1.png'' ''ab-12!'') = ''AB12_1.png''" by (simp add: entryFor_def)
  show ?thesis
    using output_file_name [of refEnv exImage 2 2 "\<lparr>files = [(''AB12.png'', exImage)], clockReads = 0\<rparr>"
            "exBox ''ab-12!'' False"
            "\<lparr>files = [(''AB12_1.png'', exImage), (''AB12.png'', exImage)], clockReads = 0\<rparr>"
            "entryFor ''AB12_1.png'' ''ab-12!''"]
          cropOne_second [of False]
    unfolding n i cleanLabel_examples Let_def by simp
qed

text \<open>
  C1. The claim asks that a box with \<open>flipVertical\<close> set yields the vertical mirror of
  what it yields with the flag cleared. The server never reads the flag: both settings
  give the same result for every box, and for the example bitmap the file written is the
  bitmap itself in both cases, which differs from its mirror.
\<close>

theorem flip_flag_is_ignored:
  "cropOne env input W H w (c\<lparr>q_flipVertical := True\<rparr>)
     = cropOne env input W H w (c\<lparr>q_flipVertical := False\<rparr>)
   \<and> files (fst (cropRoute refEnv emptyWorld (exRequest [exBox ''a1'' True]))) = [(''A1.png'', exImage)]
   \<and> files (fst (cropRoute refEnv emptyWorld (exRequest [exBox ''a1'' False]))) = [(''A1.png'', exImage)]
   \<and> flipVertically exImage = [[3, 4], [1, 2]]
   \<and> flipVertically exImage \<noteq> exImage"
proof (intro conjI)
  show "cropOne env input W H w (c\<lparr>q_flipVertical := True\<rparr>)
     = cropOne env input W H w (c\<lparr>q_flipVertical := False\<rparr>)"
    by (simp only: cropOne_def cropGeometry_def flip_untouched)
  have r: "files (fst (cropRoute refEnv emptyWorld (exRequest [exBox ''a1'' f]))) = [(''A1.png'', exImage)]" for f
    by (simp add: cropRoute_def exRequest_def refEnv_simps exImage_size cropOne_exBox
          cleanLabel_examples freeName_fresh emptyWorld_def)
  show "files (fst (cropRoute refEnv emptyWorld (exRequest [exBox ''a1'' True]))) = [(''A1.png'', exImage)]"
    by (rule r)
  show "files (fst (cropRoute refEnv emptyWorld (exRequest [exBox ''a1'' False]))) = [(''A1.png'', exImage)]"
    by (rule r)
  show "flipVertically exImage = [[3, 4], [1, 2]]" "flipVertically exImage \<noteq> exImage"
    by (simp_all add: flipVertically_def exImage_def)
qed

text \<open>
  C2 (amended). Over any sequence of events (pointer down, move and up, keys, adding and
  removing a box, focus and zoom controls), if every box of every session has
  \<open>width \<ge> 50\<close>, \<open>height \<ge> 20\<close>, \<open>0 \<le> x\<close> and \<open>0 \<le> y\<close> before, every box has them
  after. Over any sequence without ArrowRight, ArrowDown and without adding a box, in
  which the canvas of a pointer move reports the size of its bitmap, sessions whose
  boxes have distinct ids and satisfy in addition \<open>x + width \<le> imageWidth\<close> when
  \<open>width \<le> imageWidth\<close> and \<open>y + height \<le> imageHeight\<close> when \<open>height \<le> imageHeight\<close>
  keep all of this.
\<close>

theorem box_invariants_kept:
  "((\<forall>j. list_all sizeOk (boxesAt (boxesMap st) j))
      \<longrightarrow> list_all sizeOk (boxesAt (boxesMap (run evs st)) i))
   \<and> ((\<forall>j. fitted (dims j) (boxesAt (boxesMap st) j)) \<and> list_all (bounded dims) evs
      \<longrightarrow> fitted (dims i) (boxesAt (boxesMap (run evs st)) i))"
proof (intro conjI impI)
  assume "\<forall>j. list_all sizeOk (boxesAt (boxesMap st) j)"
  then show "list_all sizeOk (boxesAt (boxesMap (run evs st)) i)"
    by (intro run_sized) simp
next
  assume "(\<forall>j. fitted (dims j) (boxesAt (boxesMap st) j)) \<and> list_all (bounded dims) evs"
  then show "fitted (dims i) (boxesAt (boxesMap (run evs st)) i)"
    by (intro run_fitted) simp_all
qed

theorem box_invariants_kept_witness:
  "(\<forall>j. list_all sizeOk (boxesAt (boxesMap (exState [exCropBox 740 10 60 30])) j))
   \<and> (\<forall>j. fitted (800, 600) (boxesAt (boxesMap (exState [exCropBox 740 10 60 30])) j))
   \<and> list_all (bounded (\<lambda>i. (800, 600))) dragEvents
   \<and> boxesAt (boxesMap (run dragEvents (exState [exCropBox 740 10 60 30]))) 0
        = [exCropBox 739 10 60 30]
   \<and> list_all sizeOk [exCropBox 739 10 60 30]
   \<and> fitted (800, 600) [exCropBox 739 10 60 30]"
proof -
  let ?st = "exState [exCropBox 740 10 60 30]"
  have a: "\<forall>j. list_all sizeOk (boxesAt (boxesMap ?st) j)"
    by (simp add: exState_boxes sizeOk_def exCropBox_fields)
  have b: "\<forall>j. fitted (800, 600) (boxesAt (boxesMap ?st) j)"
    by (simp add: exState_boxes fitted_def fitsIn_def sizeOk_def exCropBox_fields)
  have c: "list_all (bounded (\<lambda>i. (800, 600))) dragEvents"
    by (simp add: dragEvents_def exCanvas_fields)
  have "list_all sizeOk (boxesAt (boxesMap (run dragEvents ?st)) 0)
        \<and> fitted (800, 600) (boxesAt (boxesMap (run dragEvents ?st)) 0)"
    using box_invariants_kept [of ?st dragEvents 0 "\<lambda>i. (800, 600)"] a b c by blast
  then show ?thesis using a b c by (simp only: run_dragEvents) simp
qed

text \<open>
  C2 as stated fails. ArrowRight moves a box that touches the right edge of an 800 pixel
  wide bitmap to \<open>x + width = 801\<close>. Adding a box to a 300 by 200 bitmap creates a 400
  by 120 box. Pulling the east handle of a box on a 300 pixel wide bitmap to image
  coordinate 590 makes the box 490 wide.
\<close>

theorem box_invariants_counterexample:
  "list_all (boxOk 800 600) (boxesAt (boxesMap (exState [exCropBox 740 10 60 30])) 0)
   \<and> \<not> list_all (boxOk 800 600)
         (boxesAt (boxesMap (run [KeyDown ArrowRight False] (exState [exCropBox 740 10 60 30]))) 0)
   \<and> \<not> list_all (boxOk 300 200) (boxesAt (boxesMap (run [AddBox None] (exState []))) 0)
   \<and> list_all (boxOk 300 300) (boxesAt (boxesMap pannedState) 0)
   \<and> \<not> list_all (boxOk 300 300)
         (boxesAt (boxesMap (run [MouseDown (Some (exCanvas 300 300)) (exPointer 50 150) 0,
                                  MouseMove (Some (exCanvas 300 300)) (exPointer 440 150) 0]
                             pannedState)) 0)"
proof (intro conjI)
  show "list_all (boxOk 800 600) (boxesAt (boxesMap (exState [exCropBox 740 10 60 30])) 0)"
    by (simp add: exState_boxes boxOk_def exCropBox_fields)
  show "\<not> list_all (boxOk 800 600)
         (boxesAt (boxesMap (run [KeyDown ArrowRight False] (exState [exCropBox 740 10 60 30]))) 0)"
    by (simp only: nudge_right) (simp add: boxOk_def exCropBox_fields)
  show "\<not> list_all (boxOk 300 200) (boxesAt (boxesMap (run [AddBox None] (exState []))) 0)"
    by (simp only: add_on_small_image) (simp add: boxOk_def)
  show "list_all (boxOk 300 300) (boxesAt (boxesMap pannedState) 0)"
    by (simp add: pannedState_def exState_def boxesAt_def boxOk_def exCropBox_fields)
  show "\<not> list_all (boxOk 300 300)
         (boxesAt (boxesMap (run [MouseDown (Some (exCanvas 300 300)) (exPointer 50 150) 0,
                                  MouseMove (Some (exCanvas 300 300)) (exPointer 440 150) 0]
                             pannedState)) 0)"
    by (simp only: pull_east) (simp add: boxOk_def exCropBox_fields)
qed

text \<open>
  C8. The claim asks that a resize with a handle on the top or left side keeps the
  opposite edge where it was. Grabbing the west handle of the box at (100, 100) of size
  100 by 100 and moving the pointer 80 pixels to the right clamps the width to 50 but
  moves the origin by the full 80 pixels: the right edge goes from 200 to 230. Moving
  the pointer 30 pixels to the left instead keeps the right edge at 200.
\<close>

theorem west_handle_resize_moves_right_edge:
  "boxesAt (boxesMap (run [MouseDown (Some (exCanvas 800 600)) (exPointer 100 150) 0,
                            MouseMove (Some (exCanvas 800 600)) (exPointer 180 150) 0]
                       (exState [exCropBox 100 100 100 100]))) 0
     = [exCropBox 180 100 50 100]
   \<and> b_x (exCropBox 100 100 100 100) + b_width (exCropBox 100 100 100 100) = 200
   \<and> b_x (exCropBox 180 100 50 100) + b_width (exCropBox 180 100 50 100) = 230
   \<and> boxesAt (boxesMap (run [MouseDown (Some (exCanvas 800 600)) (exPointer 100 150) 0,
                              MouseMove (Some (exCanvas 800 600)) (exPointer 70 150) 0]
                         (exState [exCropBox 100 100 100 100]))) 0
     = [exCropBox 70 100 130 100]
   \<and> b_x (exCropBox 70 100 130 100) + b_width (exCropBox 70 100 130 100) = 200"
  by (simp only: push_west) (simp add: exCropBox_fields)

text \<open>
  C9. The claim asks that every change of focus resets zoom to 1 and pan to (0, 0).
  The Focus button and a pointer-down on another image's canvas change the focused
  image and leave zoom and pan as they are; only the thumbnail click resets them. From
  zoom 2 and pan (30, 40) on image 0, both end on image 1 with zoom 2 and pan (30, 40).
\<close>

theorem focus_change_keeps_zoom_and_pan:
  "zoom (focusButton i st) = zoom st \<and> panOffset (focusButton i st) = panOffset st
   \<and> zoom (handleMouseDown cv e i st) = zoom st
   \<and> panOffset (handleMouseDown cv e i st) = panOffset st
   \<and> activeIdx zoomedState = 0
   \<and> activeIdx (focusButton 1 zoomedState) = 1
   \<and> zoom (focusButton 1 zoomedState) = 2
   \<and> panOffset (focusButton 1 zoomedState) = (30, 40)
   \<and> activeIdx (handleMouseDown (Some (exCanvas 800 600)) (exPointer 500 500) 1 zoomedState) = 1
   \<and> zoom (handleMouseDown (Some (exCanvas 800 600)) (exPointer 500 500) 1 zoomedState) = 2
   \<and> panOffset (handleMouseDown (Some (exCanvas 800 600)) (exPointer 500 500) 1 zoomedState)
        = (30, 40)
   \<and> activeIdx (setActiveByThumb 1 zoomedState) = 1
   \<and> zoom (setActiveByThumb 1 zoomedState) = 1
   \<and> panOffset (setActiveByThumb 1 zoomedState) = (0, 0)"
  by (simp add: focus_keeps_view mouseDown_keeps_view zoomedState_fields setActiveByThumb_def)

end
